theory Spec2Isabelle
  imports Main
begin

section \<open>JavaScript values\<close>

text \<open>
  The component (\<^verbatim>\<open>src/resource-library.js\<close>) is a Vue options object. Its data are plain
  JavaScript values: numbers, strings, arrays of term IDs, and objects keyed by strings.
  A value is a tree; an object is the list of its own enumerable properties in the order
  \<^verbatim>\<open>Object.keys\<close> reports them. Numbers are the integers (page numbers, IDs, counts);
  \<^verbatim>\<open>NaN\<close> appears only as the result of \<^verbatim>\<open>parseInt\<close> and is modelled there.
  A string is the list of its characters.
\<close>

datatype jsval =
    JUndefined
  | JNull
  | JBool bool
  | JNum int
  | JStr string
  | JArr "jsval list"
  | JObj "(string \<times> jsval) list"

type_synonym jsobj = "(string \<times> jsval) list"

text \<open>\<^verbatim>\<open>!!v\<close>: the values that are falsy are \<^verbatim>\<open>undefined\<close>, \<^verbatim>\<open>null\<close>, \<^verbatim>\<open>false\<close>,
  \<^verbatim>\<open>0\<close> and \<^verbatim>\<open>""\<close>. Every array and every object is truthy, the empty ones too.\<close>

fun truthy :: "jsval \<Rightarrow> bool" where
  "truthy JUndefined = False"
| "truthy JNull = False"
| "truthy (JBool b) = b"
| "truthy (JNum n) = (n \<noteq> 0)"
| "truthy (JStr s) = (s \<noteq> [])"
| "truthy (JArr xs) = True"
| "truthy (JObj kvs) = True"

subsection \<open>Own properties of an object\<close>

text \<open>\<^verbatim>\<open>o[k]\<close> on an own property; a missing property reads as \<^verbatim>\<open>undefined\<close>.\<close>

definition get_prop :: "jsobj \<Rightarrow> string \<Rightarrow> jsval" where
  "get_prop obj k = (case map_of obj k of None \<Rightarrow> JUndefined | Some v \<Rightarrow> v)"

text \<open>\<^verbatim>\<open>o[k] = v\<close>: an existing property keeps its place, a new one goes last.\<close>

fun set_prop :: "(string \<times> 'a) list \<Rightarrow> string \<Rightarrow> 'a \<Rightarrow> (string \<times> 'a) list" where
  "set_prop [] k v = [(k, v)]"
| "set_prop ((k', v') # rest) k v =
     (if k' = k then (k, v) # rest else (k', v') # set_prop rest k v)"

text \<open>\<^verbatim>\<open>delete o[k]\<close>.\<close>

definition delete_prop :: "(string \<times> 'a) list \<Rightarrow> string \<Rightarrow> (string \<times> 'a) list" where
  "delete_prop obj k = filter (\<lambda>kv. fst kv \<noteq> k) obj"

subsection \<open>Strings\<close>

text \<open>The decimal digits of an integer, as \<^verbatim>\<open>String(n)\<close> and \<^verbatim>\<open>JSON.stringify(n)\<close> write
  them (for integers below \<open>10\<^sup>2\<^sup>1\<close> in size, beyond which JavaScript turns to the
  exponent notation).\<close>

definition digit_char :: "nat \<Rightarrow> char" where
  "digit_char n = ''0123456789'' ! (n mod 10)"

fun show_nat :: "nat \<Rightarrow> string" where
  "show_nat n = (if n < 10 then [digit_char n] else show_nat (n div 10) @ [digit_char n])"

definition show_int :: "int \<Rightarrow> string" where
  "show_int i = (if i < 0 then CHR ''-'' # show_nat (nat (- i)) else show_nat (nat i))"

text \<open>\<^verbatim>\<open>Array.prototype.join\<close> on an array of strings.\<close>

fun join :: "string \<Rightarrow> string list \<Rightarrow> string" where
  "join sep [] = []"
| "join sep [x] = x"
| "join sep (x # y # zs) = x @ sep @ join sep (y # zs)"

section \<open>The pagination window (\<^verbatim>\<open>computed.pages\<close>)\<close>

text \<open>lodash \<^verbatim>\<open>range(start, end)\<close> with no step: upwards by 1 when \<open>start < end\<close>, otherwise
  downwards by 1; \<open>end\<close> is excluded.\<close>

definition range_lodash :: "int \<Rightarrow> int \<Rightarrow> int list" where
  "range_lodash start end = (if start < end then [start ..  end - 1] else rev [end + 1 .. start])"

abbreviation hellip :: jsval where
  "hellip \<equiv> JStr ''&hellip;''"

text \<open>
  \<^verbatim>\<open>pages()\<close>, lines 193-240. \<open>total_pages\<close> is \<^verbatim>\<open>this.pagination_data.total_pages\<close> and
  \<open>pagenum\<close> is \<^verbatim>\<open>this.params.pagenum\<close>, both integers here. The result is the array of
  page numbers and \<^verbatim>\<open>'&hellip;'\<close> strings.
\<close>

definition pages :: "int \<Rightarrow> int \<Rightarrow> jsval list" where
  "pages total_pages pagenum =
    (if total_pages = 0 then []
     else if total_pages \<le> 10 then map JNum (range_lodash 1 (total_pages + 1))
     else
       let pages_before = 4;
           pages_after = 4;
           current_page = pagenum;
           (pages_before, pages_after) =
             (if pages_before \<ge> current_page
              then (current_page - 1, pages_after + (pages_before - (current_page - 1)))
              else if current_page + pages_after > total_pages
              then (pages_before + (pages_after - (total_pages - current_page)),
                    total_pages - current_page)
              else (pages_before, pages_after));
           start_page = current_page - pages_before;
           end_page = current_page + pages_after
       in
         if start_page = 1
         then map JNum (range_lodash start_page (end_page + 1)) @ [hellip, JNum total_pages]
         else if end_page = total_pages
         then [JNum 1, hellip] @ map JNum (range_lodash start_page (end_page + 1))
         else
           let pagination_items = map JNum (range_lodash start_page (end_page + 1));
               pagination_items =
                 (if start_page \<noteq> 2 then hellip # pagination_items else pagination_items);
               pagination_items = JNum 1 # pagination_items;
               pagination_items =
                 (if end_page \<noteq> total_pages - 1 then pagination_items @ [hellip]
                  else pagination_items)
           in pagination_items @ [JNum total_pages])"

section \<open>Errors\<close>

text \<open>
  Every \<^verbatim>\<open>throw\<close> is a value. \<open>Thrown msg\<close> is a string the component throws itself
  (\<^verbatim>\<open>throw 'Orderby must be one of: ...'\<close>); the others are the exceptions of the
  language and of \<^verbatim>\<open>fetch\<close>. \<open>ErrorObj e\<close> is \<^verbatim>\<open>new Error(e)\<close>, and \<open>Unmodelled\<close> marks
  a result that exists in JavaScript but has no term here (a number with a fraction).
\<close>

datatype js_error =
    Thrown string
  | TypeError
  | ReferenceError
  | SyntaxError
  | URIError
  | NetworkError
  | ErrorObj js_error
  | Unmodelled

section \<open>Functions from outside the repository\<close>

text \<open>
  The component calls functions of the language, of lodash and of Vue whose code is not
  part of the repository. They are parameters of the model:
  \<^item> \<^verbatim>\<open>encodeURIComponent\<close>, and \<^verbatim>\<open>decodeURIComponent\<close>, which throws \<^verbatim>\<open>URIError\<close>;
  \<^item> \<^verbatim>\<open>JSON.stringify\<close>, whose result is \<^verbatim>\<open>undefined\<close> (here \<open>None\<close>) for a value with no
    JSON text, and \<^verbatim>\<open>JSON.parse\<close>, which throws \<^verbatim>\<open>SyntaxError\<close>;
  \<^item> \<^verbatim>\<open>parseInt\<close> on the result of \<^verbatim>\<open>headers.get\<close> (\<open>None\<close> is \<^verbatim>\<open>null\<close>, a missing header); its
    result \<open>None\<close> is \<^verbatim>\<open>NaN\<close>;
  \<^item> lodash's \<^verbatim>\<open>merge(object, ...sources)\<close>;
  \<^item> \<^verbatim>\<open>Vue.set(target, key, value)\<close> and \<^verbatim>\<open>Vue.delete(target, key)\<close>, which change the target
    in place: the result is the target afterwards.
\<close>

record externals =
  encodeURIComponent :: "string \<Rightarrow> string"
  decodeURIComponent :: "string \<Rightarrow> js_error + string"
  JSON_stringify :: "jsval \<Rightarrow> string option"
  JSON_parse :: "string \<Rightarrow> js_error + jsval"
  parseInt :: "string option \<Rightarrow> int option"
  merge :: "jsobj \<Rightarrow> jsobj list \<Rightarrow> jsobj"
  Vue_set :: "jsval \<Rightarrow> string \<Rightarrow> jsval \<Rightarrow> js_error + jsval"
  Vue_delete :: "jsval \<Rightarrow> string \<Rightarrow> js_error + jsval"

section \<open>Serialising the parameters (\<^verbatim>\<open>serializeParams\<close>, \<^verbatim>\<open>unserializeParams\<close>)\<close>

text \<open>\<^verbatim>\<open>s.split(c)\<close> for a separator of one character: the pieces between the separators,
  so at least one piece (\<^verbatim>\<open>''.split('&')\<close> is \<^verbatim>\<open>['']\<close>).\<close>

fun split :: "char \<Rightarrow> string \<Rightarrow> string list" where
  "split c [] = [[]]"
| "split c (x # xs) =
     (if x = c then [] # split c xs
      else (case split c xs of [] \<Rightarrow> [[x]] | w # ws \<Rightarrow> (x # w) # ws))"

text \<open>The argument of a function that takes a string: \<^verbatim>\<open>undefined\<close> is converted to
  \<^verbatim>\<open>'undefined'\<close>.\<close>

definition string_arg :: "string option \<Rightarrow> string" where
  "string_arg a = (case a of None \<Rightarrow> ''undefined'' | Some s \<Rightarrow> s)"

text \<open>\<^verbatim>\<open>val[i]\<close> on an array of strings: \<^verbatim>\<open>undefined\<close> past the end.\<close>

definition index :: "string list \<Rightarrow> nat \<Rightarrow> string option" where
  "index val i = (if i < length val then Some (val ! i) else None)"

text \<open>\<^verbatim>\<open>o[k] = v\<close> for a key computed at run time, on an ordinary object: the name
  \<^verbatim>\<open>__proto__\<close> reaches the accessor of \<^verbatim>\<open>Object.prototype\<close> and creates no own property.\<close>

definition assign_prop :: "jsobj \<Rightarrow> string \<Rightarrow> jsval \<Rightarrow> jsobj" where
  "assign_prop obj k v = (if k = ''__proto__'' then obj else set_prop obj k v)"

text \<open>\<^verbatim>\<open>serializeParams(params)\<close>, lines 579-588: \<^verbatim>\<open>Object.keys\<close>, the filter on
  \<^verbatim>\<open>!!params[k]\<close>, the map to \<^verbatim>\<open>key=value\<close> and the join.\<close>

definition serializeParams :: "externals \<Rightarrow> jsobj \<Rightarrow> string" where
  "serializeParams E params =
     join ''&''
       (map (\<lambda>k. encodeURIComponent E k @ ''='' @
                  encodeURIComponent E (string_arg (JSON_stringify E (get_prop params k))))
          (filter (\<lambda>k. truthy (get_prop params k)) (map fst params)))"

text \<open>The \<^verbatim>\<open>forEach\<close> of \<^verbatim>\<open>unserializeParams\<close>: for each \<open>val\<close> the key is decoded, then the
  value is decoded and parsed, then the property is assigned. The first exception ends
  the loop.\<close>

fun unserialize_each :: "externals \<Rightarrow> string list list \<Rightarrow> jsobj \<Rightarrow> js_error + jsobj" where
  "unserialize_each E [] params = Inr params"
| "unserialize_each E (val # rest) params =
     (case decodeURIComponent E (string_arg (index val 0)) of
        Inl e \<Rightarrow> Inl e
      | Inr k \<Rightarrow>
          (case decodeURIComponent E (string_arg (index val 1)) of
             Inl e \<Rightarrow> Inl e
           | Inr text \<Rightarrow>
               (case JSON_parse E text of
                  Inl e \<Rightarrow> Inl e
                | Inr v \<Rightarrow> unserialize_each E rest (assign_prop params k v))))"

text \<open>\<^verbatim>\<open>unserializeParams(param_string)\<close>, lines 595-610: \<^verbatim>\<open>substring(1)\<close> drops the first
  character, whatever it is.\<close>

definition unserializeParams :: "externals \<Rightarrow> string \<Rightarrow> js_error + jsobj" where
  "unserializeParams E param_string =
     (let params_obj = map (split (CHR ''='')) (split (CHR ''&'') (drop 1 param_string))
      in unserialize_each E params_obj [])"

text \<open>A string survives a trip through the URL when \<^verbatim>\<open>decodeURIComponent\<close> gives it back
  from its encoding and the encoding holds neither \<^verbatim>\<open>&\<close> nor \<^verbatim>\<open>=\<close>; a value is
  JSON-representable when \<^verbatim>\<open>JSON.parse\<close> gives it back from its JSON text, and that text
  survives the URL.\<close>

definition uri_safe :: "externals \<Rightarrow> string \<Rightarrow> bool" where
  "uri_safe E s =
     (decodeURIComponent E (encodeURIComponent E s) = Inr s
      \<and> CHR ''&'' \<notin> set (encodeURIComponent E s)
      \<and> CHR ''='' \<notin> set (encodeURIComponent E s))"

definition json_safe :: "externals \<Rightarrow> jsval \<Rightarrow> bool" where
  "json_safe E v =
     (JSON_parse E (string_arg (JSON_stringify E v)) = Inr v
      \<and> uri_safe E (string_arg (JSON_stringify E v)))"

section \<open>The request parameters (\<^verbatim>\<open>computed.query_params\<close>)\<close>

text \<open>
  \<^verbatim>\<open>query_params\<close> copies \<^verbatim>\<open>this.params\<close> with lodash's \<^verbatim>\<open>extend({}, this.params)\<close>, a copy
  of the properties, not of the objects they refer to. To follow what the copy shares
  with \<^verbatim>\<open>this.params\<close>, a property of these two objects holds either a value of its own
  (a primitive, or an array, which nothing here changes) or a reference to a plain
  object in a store.
\<close>

type_synonym addr = nat

datatype atom = AUndefined | ANull | ABool bool | ANum int | AStr string | AArr "jsval list"

datatype hval = Atom atom | Ref addr

type_synonym hobj = "(string \<times> hval) list"

type_synonym store = "addr \<Rightarrow> jsobj option"

fun val_of :: "atom \<Rightarrow> jsval" where
  "val_of AUndefined = JUndefined"
| "val_of ANull = JNull"
| "val_of (ABool b) = JBool b"
| "val_of (ANum n) = JNum n"
| "val_of (AStr s) = JStr s"
| "val_of (AArr xs) = JArr xs"

text \<open>The value of a property of \<^verbatim>\<open>this.params\<close> when its objects are placed in the store:
  a plain object goes to the address \<open>a\<close>.\<close>

fun hval_of :: "addr \<Rightarrow> jsval \<Rightarrow> hval" where
  "hval_of a JUndefined = Atom AUndefined"
| "hval_of a JNull = Atom ANull"
| "hval_of a (JBool b) = Atom (ABool b)"
| "hval_of a (JNum n) = Atom (ANum n)"
| "hval_of a (JStr s) = Atom (AStr s)"
| "hval_of a (JArr xs) = Atom (AArr xs)"
| "hval_of a (JObj obj) = Ref a"

text \<open>\<^verbatim>\<open>this.params\<close> with its objects in the store: the property at position \<open>i\<close> of
  \<open>params\<close> uses the address \<open>a + i\<close>.\<close>

fun refs_of :: "addr \<Rightarrow> jsobj \<Rightarrow> hobj" where
  "refs_of a [] = []"
| "refs_of a ((k, v) # rest) = (k, hval_of a v) # refs_of (Suc a) rest"

fun store_of :: "addr \<Rightarrow> jsobj \<Rightarrow> store" where
  "store_of a [] = (\<lambda>x. None)"
| "store_of a ((k, v) # rest) =
     (case v of
        JObj obj \<Rightarrow> (store_of (Suc a) rest)(a := Some obj)
      | _ \<Rightarrow> store_of (Suc a) rest)"

text \<open>Reading a property value back as a tree.\<close>

definition tree_of :: "store \<Rightarrow> hval \<Rightarrow> jsval" where
  "tree_of st h =
     (case h of
        Atom a \<Rightarrow> val_of a
      | Ref r \<Rightarrow> (case st r of None \<Rightarrow> JUndefined | Some obj \<Rightarrow> JObj obj))"

definition object_of :: "store \<Rightarrow> hobj \<Rightarrow> jsobj" where
  "object_of st obj = map (\<lambda>kh. (fst kh, tree_of st (snd kh))) obj"

definition hget :: "hobj \<Rightarrow> string \<Rightarrow> hval" where
  "hget obj k = (case map_of obj k of None \<Rightarrow> Atom AUndefined | Some h \<Rightarrow> h)"

definition htruthy :: "hval \<Rightarrow> bool" where
  "htruthy h = (case h of Atom a \<Rightarrow> truthy (val_of a) | Ref r \<Rightarrow> True)"

text \<open>The conversion of a value to a string (\<^verbatim>\<open>String(v)\<close>), which a computed property
  key undergoes.\<close>

fun to_string :: "jsval \<Rightarrow> string" where
  "to_string JUndefined = ''undefined''"
| "to_string JNull = ''null''"
| "to_string (JBool b) = (if b then ''true'' else ''false'')"
| "to_string (JNum n) = show_int n"
| "to_string (JStr s) = s"
| "to_string (JArr xs) =
     join '','' (map (\<lambda>x. if x = JUndefined \<or> x = JNull then [] else to_string x) xs)"
| "to_string (JObj obj) = ''[object Object]''"

definition property_key :: "hval \<Rightarrow> string" where
  "property_key h = (case h of Atom a \<Rightarrow> to_string (val_of a) | Ref r \<Rightarrow> ''[object Object]'')"

text \<open>The names every plain object inherits from \<^verbatim>\<open>Object.prototype\<close>. Reading one of
  them on an object that has no such property of its own gives a function (or, for
  \<^verbatim>\<open>__proto__\<close>, the prototype object): a truthy value that is no string.\<close>

definition object_prototype_names :: "string list" where
  "object_prototype_names =
     [''constructor'', ''hasOwnProperty'', ''isPrototypeOf'', ''propertyIsEnumerable'',
      ''toLocaleString'', ''toString'', ''valueOf'', ''__proto__'',
      ''__defineGetter__'', ''__defineSetter__'', ''__lookupGetter__'', ''__lookupSetter__'']"

text \<open>\<^verbatim>\<open>this.meta_fields[key] === 'number'\<close> and the truth value of
  \<^verbatim>\<open>this.meta_fields[key]\<close>.\<close>

definition meta_field_is_number :: "jsobj \<Rightarrow> string \<Rightarrow> bool" where
  "meta_field_is_number meta_fields key = (map_of meta_fields key = Some (JStr ''number''))"

definition meta_field_truthy :: "jsobj \<Rightarrow> string \<Rightarrow> bool" where
  "meta_field_truthy meta_fields key =
     (case map_of meta_fields key of
        Some v \<Rightarrow> truthy v
      | None \<Rightarrow> key \<in> set object_prototype_names)"

text \<open>\<^verbatim>\<open>this.__valid_orderbys\<close>, set in \<^verbatim>\<open>created\<close>.\<close>

definition valid_orderbys :: "string list" where
  "valid_orderbys =
     [''author'', ''date'', ''id'', ''include'', ''modified'', ''parent'', ''relevance'',
      ''slug'', ''title'']"

text \<open>\<^verbatim>\<open>this.__valid_orderbys.indexOf(orderby) === -1\<close>: only a string is found.\<close>

definition not_valid_orderby :: "hval \<Rightarrow> bool" where
  "not_valid_orderby h =
     (case h of Atom (AStr s) \<Rightarrow> s \<notin> set valid_orderbys | _ \<Rightarrow> True)"

definition orderby_message :: string where
  "orderby_message =
     ''Orderby must be one of: '' @ join '', '' valid_orderbys @ '', or a postmeta field''"

text \<open>The last step of \<^verbatim>\<open>query_params\<close>, lines 112-114:
  \<^verbatim>\<open>if (Object.keys(query_params.meta_query).length > 0) query_params.meta_query.relation = 'AND'\<close>.
  \<^verbatim>\<open>Object.keys\<close> throws on \<^verbatim>\<open>undefined\<close> and \<^verbatim>\<open>null\<close>; the keys of a string are its
  indices, and the assignment to a property of a string throws in a module; a number or
  a boolean has no keys. An array keeps its elements (the assignment gives it a named
  property, which a tree does not hold). On a reference the assignment changes the
  stored object.\<close>

definition process_meta_query :: "store \<Rightarrow> hobj \<Rightarrow> js_error + (hobj \<times> store)" where
  "process_meta_query st query_params =
     (case hget query_params ''meta_query'' of
        Ref r \<Rightarrow>
          (case st r of
             None \<Rightarrow> Inl TypeError
           | Some meta_query \<Rightarrow>
               if length (map fst meta_query) > 0
               then Inr (query_params,
                         st(r := Some (set_prop meta_query ''relation'' (JStr ''AND''))))
               else Inr (query_params, st))
      | Atom AUndefined \<Rightarrow> Inl TypeError
      | Atom ANull \<Rightarrow> Inl TypeError
      | Atom (AStr s) \<Rightarrow> if length s > 0 then Inl TypeError else Inr (query_params, st)
      | Atom _ \<Rightarrow> Inr (query_params, st))"

text \<open>
  \<^verbatim>\<open>query_params()\<close>, lines 90-117, on \<^verbatim>\<open>this.meta_fields\<close>, the store and \<^verbatim>\<open>this.params\<close>.
  The result is the new object and the store afterwards.
\<close>

definition query_params :: "jsobj \<Rightarrow> store \<Rightarrow> hobj \<Rightarrow> js_error + (hobj \<times> store)" where
  "query_params meta_fields st this_params =
     (let query_params = this_params;
          orderby = hget this_params ''orderby'';
          query_params =
            (if htruthy (hget query_params ''pagenum'')
             then delete_prop (set_prop query_params ''page'' (hget query_params ''pagenum''))
                    ''pagenum''
             else query_params)
      in if meta_field_is_number meta_fields (property_key orderby) then
           process_meta_query st
             (set_prop (set_prop query_params ''orderby'' (Atom (AStr ''meta_value_num'')))
                ''meta_key'' orderby)
         else if meta_field_truthy meta_fields (property_key orderby) then
           process_meta_query st
             (set_prop (set_prop query_params ''orderby'' (Atom (AStr ''meta_value'')))
                ''meta_key'' orderby)
         else if not_valid_orderby orderby then Inl (Thrown orderby_message)
         else process_meta_query st query_params)"

text \<open>Evaluating \<^verbatim>\<open>this.query_params\<close> in the component, whose \<^verbatim>\<open>params\<close> is the tree
  \<open>params\<close>: the result is the request parameters and \<^verbatim>\<open>this.params\<close> afterwards.\<close>

definition eval_query_params :: "jsobj \<Rightarrow> jsobj \<Rightarrow> js_error + (jsobj \<times> jsobj)" where
  "eval_query_params meta_fields params =
     (case query_params meta_fields (store_of 0 params) (refs_of 0 params) of
        Inl e \<Rightarrow> Inl e
      | Inr (q, st) \<Rightarrow> Inr (object_of st q, object_of st (refs_of 0 params)))"

text \<open>What an evaluation of \<^verbatim>\<open>query_params\<close> that returns leaves in \<^verbatim>\<open>this.params\<close>: a meta
  query that is a non-empty plain object has the property \<^verbatim>\<open>relation\<close> set to \<^verbatim>\<open>'AND'\<close>.\<close>

definition with_relation :: "jsobj \<Rightarrow> jsobj" where
  "with_relation p =
     (case get_prop p ''meta_query'' of
        JObj meta_query \<Rightarrow>
          if meta_query \<noteq> []
          then set_prop p ''meta_query'' (JObj (set_prop meta_query ''relation'' (JStr ''AND'')))
          else p
      | _ \<Rightarrow> p)"

section \<open>The component\<close>

subsection \<open>Props and data\<close>

text \<open>The props, with the types their declarations give (lines 24-71).\<close>

record config =
  ver :: int
  post_type :: string
  per_page :: int
  meta_fields :: jsobj
  initial_page :: int
  initial_search :: string
  initial_order :: string
  initial_orderby :: string
  initial_taxonomies :: jsobj
  initial_meta_query :: jsobj

text \<open>\<^verbatim>\<open>pagination_data\<close>, whose field \<^verbatim>\<open>total\<close> is \<open>total_found\<close> here; \<open>None\<close> is \<^verbatim>\<open>NaN\<close>.\<close>

record pagination =
  total_found :: "int option"
  total_pages :: "int option"

text \<open>
  The data of the component (\<^verbatim>\<open>data()\<close>, lines 74-85) and the private properties that
  \<^verbatim>\<open>created\<close> sets (\<^verbatim>\<open>__page_updated\<close>, \<^verbatim>\<open>__suppress_history_state\<close>, \<^verbatim>\<open>__is_initial_load\<close>).
  \<open>history\<close> is the list of the entries pushed with \<^verbatim>\<open>this.__history.push(url, state)\<close>,
  oldest first, and \<open>root_events\<close> the events dispatched with \<^verbatim>\<open>triggerRootEvent\<close>. \<open>error\<close>
  is \<open>None\<close> for \<^verbatim>\<open>null\<close>.
\<close>

record state =
  wp_data :: jsval
  pagination_data :: pagination
  params :: jsobj
  error :: "js_error option"
  loading :: bool
  page_updated :: bool
  suppress_history_state :: bool
  is_initial_load :: bool
  history :: "(string \<times> jsobj) list"
  root_events :: "string list"

subsection \<open>Fetching (\<^verbatim>\<open>constructURL\<close>, \<^verbatim>\<open>__fetchData\<close>)\<close>

text \<open>
  \<^verbatim>\<open>constructURL()\<close>, lines 270-286. The URL is its path after the origin and the list of
  the parameters appended to \<^verbatim>\<open>searchParams\<close>, before their conversion to strings.
  Reading \<^verbatim>\<open>this.query_params\<close> evaluates the computed property once; what it throws comes
  out as \<^verbatim>\<open>new Error(error)\<close>. The second component of the result is \<^verbatim>\<open>this.params\<close>
  afterwards.
\<close>

definition api_base_url :: string where
  "api_base_url = ''/wp-json/wp/v2/''"

definition constructURL :: "config \<Rightarrow> jsobj \<Rightarrow> js_error + ((string \<times> jsobj) \<times> jsobj)" where
  "constructURL cfg this_params =
     (case eval_query_params (meta_fields cfg) this_params of
        Inl e \<Rightarrow> Inl (ErrorObj e)
      | Inr (q, this_params') \<Rightarrow>
          Inr ((api_base_url @ post_type cfg,
                [(''context'', JStr ''embed''), (''_embed'', JNum 1)] @ q),
               this_params'))"

text \<open>How the request ends: \<^verbatim>\<open>fetch\<close> rejects (a network error), or \<^verbatim>\<open>fetchResponse.json()\<close>
  rejects (the body is not JSON), or there is a body and the two headers
  \<^verbatim>\<open>x-wp-total\<close> and \<^verbatim>\<open>x-wp-totalpages\<close> as \<^verbatim>\<open>headers.get\<close> returns them.\<close>

datatype fetch_result =
    FetchRejected js_error
  | JsonRejected js_error
  | Response jsval "string option" "string option"

text \<open>
  \<^verbatim>\<open>__fetchData()\<close>, lines 292-314, in two parts. \<open>fetchData_begin\<close> is what runs before the
  first \<^verbatim>\<open>await\<close>: the loading flag, the event, \<^verbatim>\<open>constructURL\<close> and, when that throws, the
  \<^verbatim>\<open>catch\<close> block; its second result is the URL of the request now in flight, if any.
  \<open>fetchData_end\<close> is what runs once the request has ended. \<^verbatim>\<open>onInitialLoad\<close> does nothing
  unless overridden.
\<close>

definition fetchData_begin ::
  "config \<Rightarrow> state \<Rightarrow> state \<times> (string \<times> jsobj) option" where
  "fetchData_begin cfg s =
     (let s = s\<lparr>loading := True, root_events := root_events s @ [''loading'']\<rparr>
      in case constructURL cfg (params s) of
           Inl e \<Rightarrow> (s\<lparr>error := Some e, loading := False\<rparr>, None)
         | Inr (apiCall, this_params') \<Rightarrow> (s\<lparr>params := this_params'\<rparr>, Some apiCall))"

definition fetchData_end :: "externals \<Rightarrow> fetch_result \<Rightarrow> state \<Rightarrow> state" where
  "fetchData_end E r s =
     (case r of
        FetchRejected e \<Rightarrow> s\<lparr>error := Some e, loading := False\<rparr>
      | JsonRejected e \<Rightarrow> s\<lparr>error := Some e, loading := False\<rparr>
      | Response response total_header totalpages_header \<Rightarrow>
          s\<lparr>wp_data := response,
            pagination_data :=
              \<lparr>total_found = parseInt E total_header,
               total_pages = parseInt E totalpages_header\<rparr>,
            loading := False,
            is_initial_load := False\<rparr>)"

definition fetchData :: "externals \<Rightarrow> config \<Rightarrow> fetch_result \<Rightarrow> state \<Rightarrow> state" where
  "fetchData E cfg r s =
     (case fetchData_begin cfg s of
        (s', None) \<Rightarrow> s'
      | (s', Some apiCall) \<Rightarrow> fetchData_end E r s')"

subsection \<open>The methods that change the parameters\<close>

text \<open>
  Each method takes the state and returns the state, or the exception it throws. The
  optional \<^verbatim>\<open>callback\<close> argument is left out. Names of taxonomies and of meta fields are
  strings.
\<close>

text \<open>\<^verbatim>\<open>===\<close> on the values of this model: two primitive values are equal when they are the
  same value. Two arrays or objects are equal when they are the same object, which a
  tree does not tell: they are taken to be different.\<close>

fun is_primitive :: "jsval \<Rightarrow> bool" where
  "is_primitive (JArr xs) = False"
| "is_primitive (JObj obj) = False"
| "is_primitive v = True"

definition strict_equal :: "jsval \<Rightarrow> jsval \<Rightarrow> bool" where
  "strict_equal a b = (is_primitive a \<and> a = b)"

text \<open>\<^verbatim>\<open>if (terms.constructor !== Array) terms = [terms]\<close>: reading \<^verbatim>\<open>constructor\<close> on
  \<^verbatim>\<open>undefined\<close> or \<^verbatim>\<open>null\<close> throws.\<close>

definition terms_array :: "jsval \<Rightarrow> js_error + jsval list" where
  "terms_array terms =
     (case terms of
        JArr xs \<Rightarrow> Inr xs
      | JUndefined \<Rightarrow> Inl TypeError
      | JNull \<Rightarrow> Inl TypeError
      | _ \<Rightarrow> Inr [terms])"

text \<open>A change made in place to the object or array that the property \<open>k\<close> refers to:
  the property holds the changed value. Nothing is written when there is no such own
  property.\<close>

definition update_in_place :: "jsobj \<Rightarrow> string \<Rightarrow> jsval \<Rightarrow> jsobj" where
  "update_in_place obj k v = (if k \<in> fst ` set obj then set_prop obj k v else obj)"

text \<open>\<^verbatim>\<open>s.indexOf(t) !== -1\<close> on strings.\<close>

definition is_substring :: "string \<Rightarrow> string \<Rightarrow> bool" where
  "is_substring t s = (\<exists>i \<in> {0 ..< Suc (length s)}. take (length t) (drop i s) = t)"

text \<open>\<^verbatim>\<open>selectPage(page)\<close>, lines 321-328.\<close>

definition selectPage :: "jsval \<Rightarrow> state \<Rightarrow> state" where
  "selectPage page s = s\<lparr>page_updated := True, params := set_prop (params s) ''pagenum'' page\<rparr>"

text \<open>\<^verbatim>\<open>setSearch(search)\<close>, lines 335-341.\<close>

definition setSearch :: "jsval \<Rightarrow> state \<Rightarrow> state" where
  "setSearch search s = s\<lparr>params := set_prop (params s) ''search'' search\<rparr>"

text \<open>\<^verbatim>\<open>resetTerms(taxonomy)\<close>, lines 348-354.\<close>

definition resetTerms :: "string \<Rightarrow> state \<Rightarrow> state" where
  "resetTerms taxonomy s = s\<lparr>params := assign_prop (params s) taxonomy (JArr [])\<rparr>"

text \<open>The loop of \<^verbatim>\<open>addTerms\<close>, lines 367-371, on the value \<open>c\<close> of \<^verbatim>\<open>this.params[taxonomy]\<close>:
  on an array, \<^verbatim>\<open>indexOf\<close> and \<^verbatim>\<open>push\<close>; on a string \<^verbatim>\<open>indexOf\<close> looks for the term as a
  substring and \<^verbatim>\<open>push\<close> does not exist; any other value has no \<^verbatim>\<open>indexOf\<close>.\<close>

fun addTerms_loop :: "jsval \<Rightarrow> jsval list \<Rightarrow> js_error + jsval" where
  "addTerms_loop c [] = Inr c"
| "addTerms_loop c (t # ts) =
     (case c of
        JArr ys \<Rightarrow>
          addTerms_loop (if list_ex (strict_equal t) ys then JArr ys else JArr (ys @ [t])) ts
      | JStr str \<Rightarrow> if is_substring (to_string t) str then addTerms_loop c ts else Inl TypeError
      | _ \<Rightarrow> Inl TypeError)"

text \<open>\<^verbatim>\<open>addTerms(taxonomy, terms)\<close>, lines 362-376.\<close>

definition addTerms :: "string \<Rightarrow> jsval \<Rightarrow> state \<Rightarrow> js_error + state" where
  "addTerms taxonomy terms s =
     (case terms_array terms of
        Inl e \<Rightarrow> Inl e
      | Inr ts \<Rightarrow>
          (case addTerms_loop (get_prop (params s) taxonomy) ts of
             Inl e \<Rightarrow> Inl e
           | Inr c \<Rightarrow> Inr (s\<lparr>params := update_in_place (params s) taxonomy c\<rparr>)))"

text \<open>\<^verbatim>\<open>ys.splice(ys.indexOf(t), 1)\<close> when \<open>t\<close> is found: the first occurrence goes.\<close>

fun remove_first :: "jsval \<Rightarrow> jsval list \<Rightarrow> jsval list" where
  "remove_first t [] = []"
| "remove_first t (y # ys) = (if strict_equal t y then ys else y # remove_first t ys)"

text \<open>The loop of \<^verbatim>\<open>removeTerms\<close>, lines 389-395: a string has \<^verbatim>\<open>indexOf\<close> but no
  \<^verbatim>\<open>splice\<close>.\<close>

fun removeTerms_loop :: "jsval \<Rightarrow> jsval list \<Rightarrow> js_error + jsval" where
  "removeTerms_loop c [] = Inr c"
| "removeTerms_loop c (t # ts) =
     (case c of
        JArr ys \<Rightarrow> removeTerms_loop (JArr (remove_first t ys)) ts
      | JStr str \<Rightarrow>
          if is_substring (to_string t) str then Inl TypeError else removeTerms_loop c ts
      | _ \<Rightarrow> Inl TypeError)"

text \<open>\<^verbatim>\<open>removeTerms(taxonomy, terms)\<close>, lines 384-400.\<close>

definition removeTerms :: "string \<Rightarrow> jsval \<Rightarrow> state \<Rightarrow> js_error + state" where
  "removeTerms taxonomy terms s =
     (case terms_array terms of
        Inl e \<Rightarrow> Inl e
      | Inr ts \<Rightarrow>
          (case removeTerms_loop (get_prop (params s) taxonomy) ts of
             Inl e \<Rightarrow> Inl e
           | Inr c \<Rightarrow> Inr (s\<lparr>params := update_in_place (params s) taxonomy c\<rparr>)))"

text \<open>\<^verbatim>\<open>setTerms(taxonomy, terms)\<close>, lines 408-418.\<close>

definition setTerms :: "string \<Rightarrow> jsval \<Rightarrow> state \<Rightarrow> js_error + state" where
  "setTerms taxonomy terms s =
     (case terms_array terms of
        Inl e \<Rightarrow> Inl e
      | Inr ts \<Rightarrow> Inr (s\<lparr>params := assign_prop (params s) taxonomy (JArr ts)\<rparr>))"

text \<open>\<^verbatim>\<open>setOrder(order)\<close>, lines 443-453.\<close>

definition setOrder :: "jsval \<Rightarrow> state \<Rightarrow> js_error + state" where
  "setOrder order' s =
     (if order' \<noteq> JStr ''asc'' \<and> order' \<noteq> JStr ''desc''
      then Inl (Thrown ''Order must be either asc or desc'')
      else Inr (s\<lparr>params := set_prop (params s) ''order'' order'\<rparr>))"

text \<open>\<^verbatim>\<open>setOrderBy(orderby)\<close>, lines 460-466.\<close>

definition setOrderBy :: "jsval \<Rightarrow> state \<Rightarrow> state" where
  "setOrderBy orderby s = s\<lparr>params := set_prop (params s) ''orderby'' orderby\<rparr>"

text \<open>\<^verbatim>\<open>toggleOrder()\<close>, lines 505-511.\<close>

definition toggleOrder :: "state \<Rightarrow> js_error + state" where
  "toggleOrder s =
     (if get_prop (params s) ''order'' = JStr ''asc'' then setOrder (JStr ''desc'') s
      else setOrder (JStr ''asc'') s)"

text \<open>\<^verbatim>\<open>selectOrderBy(orderby, default_order)\<close>, lines 474-490.\<close>

definition selectOrderBy :: "jsval \<Rightarrow> jsval \<Rightarrow> state \<Rightarrow> js_error + state" where
  "selectOrderBy orderby default_order s =
     (let default_order = (if \<not> truthy default_order then JStr ''asc'' else default_order)
      in case (if strict_equal (get_prop (params s) ''orderby'') orderby then toggleOrder s
               else setOrder default_order s) of
           Inl e \<Rightarrow> Inl e
         | Inr s' \<Rightarrow> Inr (setOrderBy orderby s'))"

text \<open>\<^verbatim>\<open>setMetaFilter(field, value)\<close>, lines 518-523.\<close>

definition setMetaFilter :: "externals \<Rightarrow> string \<Rightarrow> jsval \<Rightarrow> state \<Rightarrow> js_error + state" where
  "setMetaFilter E field val s =
     (case Vue_set E (get_prop (params s) ''meta_query'') field
             (JObj [(''field'', JStr field), (''value'', val)]) of
        Inl e \<Rightarrow> Inl e
      | Inr meta_query \<Rightarrow>
          Inr (s\<lparr>params := update_in_place (params s) ''meta_query'' meta_query\<rparr>))"

text \<open>\<^verbatim>\<open>removeMetaFilter(field)\<close>, lines 529-531.\<close>

definition removeMetaFilter :: "externals \<Rightarrow> string \<Rightarrow> state \<Rightarrow> js_error + state" where
  "removeMetaFilter E field s =
     (case Vue_delete E (get_prop (params s) ''meta_query'') field of
        Inl e \<Rightarrow> Inl e
      | Inr meta_query \<Rightarrow>
          Inr (s\<lparr>params := update_in_place (params s) ''meta_query'' meta_query\<rparr>))"

text \<open>\<^verbatim>\<open>clearMetaFilters()\<close>, lines 536-538: \<^verbatim>\<open>Vue.set(this.params, meta_query, {})\<close> reads the
  variable \<^verbatim>\<open>meta_query\<close>, which is declared nowhere.\<close>

definition clearMetaFilters :: "state \<Rightarrow> js_error + state" where
  "clearMetaFilters s = Inl ReferenceError"

text \<open>\<^verbatim>\<open>initialParams()\<close>, lines 544-554; \<^verbatim>\<open>clone\<close> copies the meta query.\<close>

definition initialParams :: "config \<Rightarrow> jsobj" where
  "initialParams cfg =
     [(''per_page'', JNum (per_page cfg)),
      (''search'', JStr (initial_search cfg)),
      (''order'', JStr (initial_order cfg)),
      (''orderby'', JStr (initial_orderby cfg)),
      (''pagenum'', JNum (initial_page cfg)),
      (''meta_query'', JObj (initial_meta_query cfg)),
      (''ver'', JNum (ver cfg))]"

text \<open>\<^verbatim>\<open>reset()\<close>, lines 559-563.\<close>

definition reset :: "externals \<Rightarrow> config \<Rightarrow> state \<Rightarrow> state" where
  "reset E cfg s =
     (let params' = merge E [] [initialParams cfg, initial_taxonomies cfg]
      in s\<lparr>params := params'\<rparr>)"

subsection \<open>History and the watcher\<close>

text \<open>\<^verbatim>\<open>__pushHistoryState(url)\<close>, lines 636-638.\<close>

definition pushHistoryState :: "string \<Rightarrow> state \<Rightarrow> state" where
  "pushHistoryState url s = s\<lparr>history := history s @ [(url, params s)]\<rparr>"

text \<open>The listener that \<^verbatim>\<open>__initHistory\<close> registers, lines 619-629. \<open>location_state\<close> is
  \<^verbatim>\<open>location.state\<close>: \<open>Some\<close> of the snapshot the entry carries, or \<open>None\<close> when it carries
  none.\<close>

datatype nav_action = POP | PUSH | REPLACE

definition history_listener ::
  "externals \<Rightarrow> config \<Rightarrow> jsobj option \<Rightarrow> nav_action \<Rightarrow> state \<Rightarrow> state" where
  "history_listener E cfg location_state action s =
     (if action = POP then
        (let s = s\<lparr>suppress_history_state := True\<rparr>
         in case location_state of
              Some snapshot \<Rightarrow> s\<lparr>page_updated := True, params := snapshot\<rparr>
            | None \<Rightarrow> reset E cfg s)
      else s)"

text \<open>
  The watcher on \<^verbatim>\<open>params\<close>, lines 644-661: one reaction to a change of the parameters.
  \<open>pathname\<close> is \<^verbatim>\<open>window.location.pathname\<close>. \<^verbatim>\<open>__fetchData()\<close> is not awaited: the
  reaction goes on after its first part. \<^verbatim>\<open>onParamsChange\<close> does nothing unless
  overridden.
\<close>

definition handler :: "externals \<Rightarrow> config \<Rightarrow> string \<Rightarrow> state \<Rightarrow> state" where
  "handler E cfg pathname s =
     (let s = (if page_updated s = False
               then s\<lparr>params := set_prop (params s) ''pagenum'' (JNum 1)\<rparr> else s);
          s = fst (fetchData_begin cfg s);
          s = s\<lparr>page_updated := False\<rparr>;
          s = (if suppress_history_state s = False
               then pushHistoryState (pathname @ ''?'' @ serializeParams E (params s)) s
               else s)
      in s\<lparr>suppress_history_state := False\<rparr>)"

text \<open>\<^verbatim>\<open>data()\<close> and \<^verbatim>\<open>created()\<close>, lines 667-683. \<open>search\<close> is \<^verbatim>\<open>window.location.search\<close>.
  When it is empty \<^verbatim>\<open>created\<close> calls \<^verbatim>\<open>reset\<close>. Otherwise line 678 evaluates
  \<^verbatim>\<open>_.merge(this.initialParams(), this.unserializeParams(window.location.search))\<close>: the
  module imports \<^verbatim>\<open>merge\<close> from lodash under that name and binds \<^verbatim>\<open>_\<close> nowhere, so the
  reference to \<^verbatim>\<open>_\<close> throws before any argument is evaluated. \<^verbatim>\<open>afterCreated\<close> does nothing
  unless overridden.\<close>

definition data :: state where
  "data =
     \<lparr>wp_data = JObj [],
      pagination_data = \<lparr>total_found = Some 0, total_pages = Some 0\<rparr>,
      params = [],
      error = None,
      loading = True,
      page_updated = True,
      suppress_history_state = True,
      is_initial_load = True,
      history = [],
      root_events = []\<rparr>"

definition created :: "externals \<Rightarrow> config \<Rightarrow> string \<Rightarrow> js_error + state" where
  "created E cfg search =
     (if search = [] then Inr (reset E cfg data)
      else Inl ReferenceError)"

subsection \<open>Runs of the component\<close>

text \<open>
  What can happen to a mounted component: a call of one of its public methods, a
  navigation event, a reaction of the watcher, the end of a request. A method that
  throws leaves the state as it was.
\<close>

datatype action =
    SelectPage jsval
  | SetSearch jsval
  | ResetTerms string
  | AddTerms string jsval
  | RemoveTerms string jsval
  | SetTerms string jsval
  | SetOrder jsval
  | SetOrderBy jsval
  | SelectOrderBy jsval jsval
  | ToggleOrder
  | SetMetaFilter string jsval
  | RemoveMetaFilter string
  | ClearMetaFilters
  | Reset
  | Navigate "jsobj option" nav_action
  | React
  | FetchEnd fetch_result

definition or_unchanged :: "state \<Rightarrow> js_error + state \<Rightarrow> state" where
  "or_unchanged s r = (case r of Inl e \<Rightarrow> s | Inr s' \<Rightarrow> s')"

fun step :: "externals \<Rightarrow> config \<Rightarrow> string \<Rightarrow> state \<Rightarrow> action \<Rightarrow> state" where
  "step E cfg pathname s (SelectPage page) = selectPage page s"
| "step E cfg pathname s (SetSearch search) = setSearch search s"
| "step E cfg pathname s (ResetTerms taxonomy) = resetTerms taxonomy s"
| "step E cfg pathname s (AddTerms taxonomy terms) = or_unchanged s (addTerms taxonomy terms s)"
| "step E cfg pathname s (RemoveTerms taxonomy terms) =
     or_unchanged s (removeTerms taxonomy terms s)"
| "step E cfg pathname s (SetTerms taxonomy terms) = or_unchanged s (setTerms taxonomy terms s)"
| "step E cfg pathname s (SetOrder order') = or_unchanged s (setOrder order' s)"
| "step E cfg pathname s (SetOrderBy orderby) = setOrderBy orderby s"
| "step E cfg pathname s (SelectOrderBy orderby default_order) =
     or_unchanged s (selectOrderBy orderby default_order s)"
| "step E cfg pathname s ToggleOrder = or_unchanged s (toggleOrder s)"
| "step E cfg pathname s (SetMetaFilter field val) = or_unchanged s (setMetaFilter E field val s)"
| "step E cfg pathname s (RemoveMetaFilter field) = or_unchanged s (removeMetaFilter E field s)"
| "step E cfg pathname s ClearMetaFilters = or_unchanged s (clearMetaFilters s)"
| "step E cfg pathname s Reset = reset E cfg s"
| "step E cfg pathname s (Navigate location_state nav) = history_listener E cfg location_state nav s"
| "step E cfg pathname s React = handler E cfg pathname s"
| "step E cfg pathname s (FetchEnd r) = fetchData_end E r s"

definition run :: "externals \<Rightarrow> config \<Rightarrow> string \<Rightarrow> state \<Rightarrow> action list \<Rightarrow> state" where
  "run E cfg pathname s acts = foldl (step E cfg pathname) s acts"

section \<open>A reference implementation of the outside functions\<close>

text \<open>
  For evaluating the component on concrete inputs, the outside functions are written out
  on the values of this model. A string stands for the UTF-8 bytes of a well-formed
  JavaScript string.
\<close>

subsection \<open>\<^verbatim>\<open>encodeURIComponent\<close> and \<^verbatim>\<open>decodeURIComponent\<close>\<close>

definition hex_digit :: "nat \<Rightarrow> char" where
  "hex_digit n = ''0123456789ABCDEF'' ! (n mod 16)"

definition hex_value :: "char \<Rightarrow> nat option" where
  "hex_value c =
     (let n = (of_char c :: nat) in
      if 48 \<le> n \<and> n \<le> 57 then Some (n - 48)
      else if 65 \<le> n \<and> n \<le> 70 then Some (n - 55)
      else if 97 \<le> n \<and> n \<le> 102 then Some (n - 87)
      else None)"

text \<open>The characters \<^verbatim>\<open>encodeURIComponent\<close> leaves alone: letters, digits and
  \<^verbatim>\<open>- _ . ! ~ * ' ( )\<close>.\<close>

definition uri_unreserved :: "char \<Rightarrow> bool" where
  "uri_unreserved c =
     (let n = (of_char c :: nat) in
      (65 \<le> n \<and> n \<le> 90) \<or> (97 \<le> n \<and> n \<le> 122) \<or> (48 \<le> n \<and> n \<le> 57)
      \<or> n \<in> {45, 95, 46, 33, 126, 42, 39, 40, 41})"

definition encode_byte :: "char \<Rightarrow> string" where
  "encode_byte c =
     (if uri_unreserved c then [c]
      else [CHR ''%'', hex_digit (of_char c div 16), hex_digit (of_char c mod 16)])"

definition encodeURIComponent_ref :: "string \<Rightarrow> string" where
  "encodeURIComponent_ref s = concat (map encode_byte s)"

text \<open>Each \<^verbatim>\<open>%XX\<close> becomes the byte \<open>XX\<close>; \<open>None\<close> when a \<^verbatim>\<open>%\<close> is not followed by two
  hexadecimal digits. The fuel is the length of the text.\<close>

fun percent_decode :: "nat \<Rightarrow> string \<Rightarrow> string option" where
  "percent_decode 0 s = (if s = [] then Some [] else None)"
| "percent_decode (Suc n) [] = Some []"
| "percent_decode (Suc n) (c # cs) =
     (if c = CHR ''%'' then
        (case cs of
           h1 # h2 # rest \<Rightarrow>
             (case (hex_value h1, hex_value h2) of
                (Some a, Some b) \<Rightarrow>
                  map_option ((#) (char_of (16 * a + b))) (percent_decode n rest)
              | _ \<Rightarrow> None)
         | _ \<Rightarrow> None)
      else map_option ((#) c) (percent_decode n cs))"

definition utf8_cont :: "nat \<Rightarrow> bool" where
  "utf8_cont b = (128 \<le> b \<and> b \<le> 191)"

text \<open>Well-formed UTF-8: no overlong form, no surrogate, nothing above U+10FFFF.\<close>

fun valid_utf8 :: "nat \<Rightarrow> nat list \<Rightarrow> bool" where
  "valid_utf8 0 bs = (bs = [])"
| "valid_utf8 (Suc n) [] = True"
| "valid_utf8 (Suc n) (b0 # bs) =
     (if b0 < 128 then valid_utf8 n bs
      else if 194 \<le> b0 \<and> b0 \<le> 223 then
        (case bs of b1 # r \<Rightarrow> utf8_cont b1 \<and> valid_utf8 n r | _ \<Rightarrow> False)
      else if 224 \<le> b0 \<and> b0 \<le> 239 then
        (case bs of
           b1 # b2 # r \<Rightarrow>
             utf8_cont b1 \<and> utf8_cont b2 \<and> (if b0 = 224 then 160 \<le> b1 else True)
             \<and> (if b0 = 237 then b1 \<le> 159 else True) \<and> valid_utf8 n r
         | _ \<Rightarrow> False)
      else if 240 \<le> b0 \<and> b0 \<le> 244 then
        (case bs of
           b1 # b2 # b3 # r \<Rightarrow>
             utf8_cont b1 \<and> utf8_cont b2 \<and> utf8_cont b3
             \<and> (if b0 = 240 then 144 \<le> b1 else True)
             \<and> (if b0 = 244 then b1 \<le> 143 else True) \<and> valid_utf8 n r
         | _ \<Rightarrow> False)
      else False)"

definition decodeURIComponent_ref :: "string \<Rightarrow> js_error + string" where
  "decodeURIComponent_ref s =
     (case percent_decode (length s) s of
        None \<Rightarrow> Inl URIError
      | Some bytes \<Rightarrow>
          if valid_utf8 (length bytes) (map of_char bytes) then Inr bytes else Inl URIError)"

subsection \<open>\<^verbatim>\<open>JSON.stringify\<close>\<close>

definition lower_hex_digit :: "nat \<Rightarrow> char" where
  "lower_hex_digit n = ''0123456789abcdef'' ! (n mod 16)"

text \<open>One character inside a JSON string: the quote, the backslash and the control
  characters are escaped.\<close>

definition json_escape :: "char \<Rightarrow> string" where
  "json_escape c =
     (let n = (of_char c :: nat) in
      if n = 34 then [CHR 0x5C, CHR 0x22]
      else if n = 92 then [CHR 0x5C, CHR 0x5C]
      else if n = 8 then [CHR 0x5C, CHR ''b'']
      else if n = 9 then [CHR 0x5C, CHR ''t'']
      else if n = 10 then [CHR 0x5C, CHR ''n'']
      else if n = 12 then [CHR 0x5C, CHR ''f'']
      else if n = 13 then [CHR 0x5C, CHR ''r'']
      else if n < 32 then
        [CHR 0x5C, CHR ''u'', CHR ''0'', CHR ''0'', lower_hex_digit (n div 16), lower_hex_digit n]
      else [c])"

definition json_quote :: "string \<Rightarrow> string" where
  "json_quote s = [CHR 0x22] @ concat (map json_escape s) @ [CHR 0x22]"

text \<open>\<open>None\<close> is the result \<^verbatim>\<open>undefined\<close>. In an array \<^verbatim>\<open>undefined\<close> is written \<^verbatim>\<open>null\<close>; in
  an object a property whose value is \<^verbatim>\<open>undefined\<close> is left out.\<close>

fun stringify :: "jsval \<Rightarrow> string option" where
  "stringify JUndefined = None"
| "stringify JNull = Some ''null''"
| "stringify (JBool b) = Some (if b then ''true'' else ''false'')"
| "stringify (JNum n) = Some (show_int n)"
| "stringify (JStr s) = Some (json_quote s)"
| "stringify (JArr xs) =
     Some (''['' @ join '','' (map (\<lambda>x. case stringify x of None \<Rightarrow> ''null'' | Some t \<Rightarrow> t) xs)
           @ '']'')"
| "stringify (JObj kvs) =
     Some (''{'' @ join '',''
             (concat (map (\<lambda>kv. case stringify (snd kv) of
                                   None \<Rightarrow> []
                                 | Some t \<Rightarrow> [json_quote (fst kv) @ '':'' @ t]) kvs))
           @ ''}'')"

subsection \<open>\<^verbatim>\<open>JSON.parse\<close>\<close>

text \<open>
  A recursive-descent parser of the JSON grammar. Every call spends one unit of fuel and
  \<open>JSON_parse_ref\<close> starts with more fuel than the text has characters. A number with a
  fraction or an exponent, and a \<^verbatim>\<open>\u\<close> escape above U+007F, have no term in this model:
  the parser answers \<open>Unmodelled\<close> there.
\<close>

definition json_ws :: "char \<Rightarrow> bool" where
  "json_ws c = ((of_char c :: nat) \<in> {32, 9, 10, 13})"

definition skip_ws :: "string \<Rightarrow> string" where
  "skip_ws s = dropWhile json_ws s"

definition is_digit :: "char \<Rightarrow> bool" where
  "is_digit c = (48 \<le> (of_char c :: nat) \<and> (of_char c :: nat) \<le> 57)"

definition digits_value :: "string \<Rightarrow> nat" where
  "digits_value ds = foldl (\<lambda>acc d. 10 * acc + (of_char d - 48)) 0 ds"

text \<open>The digits of a number, its sign already read: no leading zero but for \<^verbatim>\<open>0\<close>
  itself.\<close>

definition parse_digits :: "string \<Rightarrow> js_error + (nat \<times> string)" where
  "parse_digits s =
     (let ds = takeWhile is_digit s; rest = dropWhile is_digit s in
      if ds = [] then Inl SyntaxError
      else if hd ds = CHR ''0'' \<and> length ds > 1 then Inl SyntaxError
      else if rest \<noteq> [] \<and> hd rest \<in> {CHR ''.'', CHR ''e'', CHR ''E''} then Inl Unmodelled
      else Inr (digits_value ds, rest))"

definition simple_escape :: "char \<Rightarrow> char option" where
  "simple_escape c =
     (if c = CHR 0x22 then Some (CHR 0x22)
      else if c = CHR 0x5C then Some (CHR 0x5C)
      else if c = CHR ''/'' then Some (CHR ''/'')
      else if c = CHR ''b'' then Some (CHR 0x08)
      else if c = CHR ''f'' then Some (CHR 0x0C)
      else if c = CHR ''n'' then Some (CHR 0x0A)
      else if c = CHR ''r'' then Some (CHR 0x0D)
      else if c = CHR ''t'' then Some (CHR 0x09)
      else None)"

text \<open>The characters of a string, its opening quote already read, up to the closing
  quote.\<close>

fun parse_chars :: "nat \<Rightarrow> string \<Rightarrow> js_error + (string \<times> string)" where
  "parse_chars 0 s = Inl SyntaxError"
| "parse_chars (Suc n) [] = Inl SyntaxError"
| "parse_chars (Suc n) (c # cs) =
     (if c = CHR 0x22 then Inr ([], cs)
      else if c = CHR 0x5C then
        (case cs of
           [] \<Rightarrow> Inl SyntaxError
         | e # r \<Rightarrow>
             if e = CHR ''u'' then
               (case r of
                  h1 # h2 # h3 # h4 # r' \<Rightarrow>
                    (case (hex_value h1, hex_value h2, hex_value h3, hex_value h4) of
                       (Some a, Some b, Some c, Some d) \<Rightarrow>
                         if 4096 * a + 256 * b + 16 * c + d < 128 then
                           (case parse_chars n r' of
                              Inl err \<Rightarrow> Inl err
                            | Inr (t, rest) \<Rightarrow> Inr (char_of (16 * c + d) # t, rest))
                         else Inl Unmodelled
                     | _ \<Rightarrow> Inl SyntaxError)
                | _ \<Rightarrow> Inl SyntaxError)
             else
               (case simple_escape e of
                  None \<Rightarrow> Inl SyntaxError
                | Some ch \<Rightarrow>
                    (case parse_chars n r of
                       Inl err \<Rightarrow> Inl err
                     | Inr (t, rest) \<Rightarrow> Inr (ch # t, rest))))
      else if (of_char c :: nat) < 32 then Inl SyntaxError
      else
        (case parse_chars n cs of
           Inl err \<Rightarrow> Inl err
         | Inr (t, rest) \<Rightarrow> Inr (c # t, rest)))"

text \<open>\<open>parse_value\<close> reads one value after white space; \<open>parse_elements\<close> reads the
  elements of an array from the first one to the closing bracket, \<open>parse_members\<close> the
  members of an object from the first key to the closing brace. A key that occurs twice
  keeps its last value.\<close>

fun parse_value :: "nat \<Rightarrow> string \<Rightarrow> js_error + (jsval \<times> string)"
  and parse_elements :: "nat \<Rightarrow> string \<Rightarrow> jsval list \<Rightarrow> js_error + (jsval \<times> string)"
  and parse_members :: "nat \<Rightarrow> string \<Rightarrow> jsobj \<Rightarrow> js_error + (jsval \<times> string)"
where
  "parse_value 0 s = Inl SyntaxError"
| "parse_value (Suc n) s =
     (case skip_ws s of
        [] \<Rightarrow> Inl SyntaxError
      | c # cs \<Rightarrow>
          if c = CHR ''['' then
            (case skip_ws cs of
               [] \<Rightarrow> Inl SyntaxError
             | d # ds \<Rightarrow> if d = CHR '']'' then Inr (JArr [], ds) else parse_elements n (d # ds) [])
          else if c = CHR ''{'' then
            (case skip_ws cs of
               [] \<Rightarrow> Inl SyntaxError
             | d # ds \<Rightarrow> if d = CHR ''}'' then Inr (JObj [], ds) else parse_members n (d # ds) [])
          else if c = CHR 0x22 then
            (case parse_chars (length cs) cs of
               Inl err \<Rightarrow> Inl err
             | Inr (t, rest) \<Rightarrow> Inr (JStr t, rest))
          else if c = CHR ''-'' then
            (case parse_digits cs of
               Inl err \<Rightarrow> Inl err
             | Inr (m, rest) \<Rightarrow> Inr (JNum (- int m), rest))
          else if is_digit c then
            (case parse_digits (c # cs) of
               Inl err \<Rightarrow> Inl err
             | Inr (m, rest) \<Rightarrow> Inr (JNum (int m), rest))
          else if take 4 (c # cs) = ''true'' then Inr (JBool True, drop 4 (c # cs))
          else if take 5 (c # cs) = ''false'' then Inr (JBool False, drop 5 (c # cs))
          else if take 4 (c # cs) = ''null'' then Inr (JNull, drop 4 (c # cs))
          else Inl SyntaxError)"
| "parse_elements 0 s acc = Inl SyntaxError"
| "parse_elements (Suc n) s acc =
     (case parse_value n s of
        Inl err \<Rightarrow> Inl err
      | Inr (v, rest) \<Rightarrow>
          (case skip_ws rest of
             [] \<Rightarrow> Inl SyntaxError
           | c # cs \<Rightarrow>
               if c = CHR '','' then parse_elements n cs (acc @ [v])
               else if c = CHR '']'' then Inr (JArr (acc @ [v]), cs)
               else Inl SyntaxError))"
| "parse_members 0 s acc = Inl SyntaxError"
| "parse_members (Suc n) s acc =
     (case skip_ws s of
        [] \<Rightarrow> Inl SyntaxError
      | q # qs \<Rightarrow>
          if q \<noteq> CHR 0x22 then Inl SyntaxError
          else
            (case parse_chars (length qs) qs of
               Inl err \<Rightarrow> Inl err
             | Inr (k, rest) \<Rightarrow>
                 (case skip_ws rest of
                    [] \<Rightarrow> Inl SyntaxError
                  | c # cs \<Rightarrow>
                      if c \<noteq> CHR '':'' then Inl SyntaxError
                      else
                        (case parse_value n cs of
                           Inl err \<Rightarrow> Inl err
                         | Inr (v, rest') \<Rightarrow>
                             (case skip_ws rest' of
                                [] \<Rightarrow> Inl SyntaxError
                              | c' # cs' \<Rightarrow>
                                  if c' = CHR '','' then parse_members n cs' (set_prop acc k v)
                                  else if c' = CHR ''}'' then Inr (JObj (set_prop acc k v), cs')
                                  else Inl SyntaxError)))))"

definition JSON_parse_ref :: "string \<Rightarrow> js_error + jsval" where
  "JSON_parse_ref text =
     (case parse_value (Suc (length text)) text of
        Inl err \<Rightarrow> Inl err
      | Inr (v, rest) \<Rightarrow> if skip_ws rest = [] then Inr v else Inl SyntaxError)"

subsection \<open>lodash \<^verbatim>\<open>merge\<close>\<close>

text \<open>
  \<^verbatim>\<open>merge(object, ...sources)\<close> on trees: the properties of each source are merged into
  the object in turn. A source value that is an array or a plain object is merged
  recursively into the value the object has (or into a fresh array or object when the
  object has none of that kind); \<^verbatim>\<open>undefined\<close> never overwrites; any other value replaces.
  A plain object merged onto an array would hang named properties on the array, which a
  tree does not hold: the array is kept as it is.
\<close>

fun merge_value :: "jsval \<Rightarrow> jsval \<Rightarrow> jsval"
  and merge_array :: "jsval list \<Rightarrow> jsval list \<Rightarrow> jsval list"
  and merge_object :: "jsobj \<Rightarrow> jsobj \<Rightarrow> jsobj"
where
  "merge_value objValue (JArr xs) =
     JArr (merge_array (case objValue of JArr ys \<Rightarrow> ys | _ \<Rightarrow> []) xs)"
| "merge_value objValue (JObj kvs) =
     (case objValue of
        JArr ys \<Rightarrow> JArr ys
      | JObj obj \<Rightarrow> JObj (merge_object obj kvs)
      | _ \<Rightarrow> JObj (merge_object [] kvs))"
| "merge_value objValue JUndefined = objValue"
| "merge_value objValue JNull = JNull"
| "merge_value objValue (JBool b) = JBool b"
| "merge_value objValue (JNum n) = JNum n"
| "merge_value objValue (JStr s) = JStr s"
| "merge_array ys [] = ys"
| "merge_array [] (x # xs) = merge_value JUndefined x # merge_array [] xs"
| "merge_array (y # ys) (x # xs) = merge_value y x # merge_array ys xs"
| "merge_object obj [] = obj"
| "merge_object obj ((k, srcValue) # rest) =
     merge_object (set_prop obj k (merge_value (get_prop obj k) srcValue)) rest"

definition merge_ref :: "jsobj \<Rightarrow> jsobj list \<Rightarrow> jsobj" where
  "merge_ref object sources = foldl merge_object object sources"

subsection \<open>\<^verbatim>\<open>parseInt\<close>, \<^verbatim>\<open>Vue.set\<close> and \<^verbatim>\<open>Vue.delete\<close>\<close>

definition is_hex :: "char \<Rightarrow> bool" where
  "is_hex c = (hex_value c \<noteq> None)"

definition hex_digits_value :: "string \<Rightarrow> nat" where
  "hex_digits_value ds = foldl (\<lambda>acc d. 16 * acc + (case hex_value d of None \<Rightarrow> 0 | Some n \<Rightarrow> n)) 0 ds"

text \<open>\<^verbatim>\<open>parseInt(s)\<close> with no radix: white space, a sign, then hexadecimal digits after
  \<^verbatim>\<open>0x\<close> or else decimal digits, as many as there are; \<^verbatim>\<open>NaN\<close> when there is none.
  \<^verbatim>\<open>null\<close> is read as the text \<^verbatim>\<open>null\<close>.\<close>

definition parseInt_ref :: "string option \<Rightarrow> int option" where
  "parseInt_ref a =
     (let s = dropWhile (\<lambda>c. (of_char c :: nat) \<in> {9, 10, 11, 12, 13, 32})
                (case a of None \<Rightarrow> ''null'' | Some t \<Rightarrow> t);
          sign = (if take 1 s = ''-'' then - 1 else (1 :: int));
          s = (if take 1 s = ''-'' \<or> take 1 s = ''+'' then drop 1 s else s)
      in if take 2 s = ''0x'' \<or> take 2 s = ''0X'' then
           (let ds = takeWhile is_hex (drop 2 s)
            in if ds = [] then None else Some (sign * int (hex_digits_value ds)))
         else
           (let ds = takeWhile is_digit s
            in if ds = [] then None else Some (sign * int (digits_value ds))))"

text \<open>On a plain object \<^verbatim>\<open>Vue.set\<close> defines the property and \<^verbatim>\<open>Vue.delete\<close> removes it.
  \<^verbatim>\<open>Vue.set\<close> throws on \<^verbatim>\<open>undefined\<close>, \<^verbatim>\<open>null\<close> and primitive values (its test
  \<^verbatim>\<open>key in target\<close>); \<^verbatim>\<open>Vue.delete\<close> throws on \<^verbatim>\<open>undefined\<close> and \<^verbatim>\<open>null\<close> and leaves a number
  or a boolean alone. What they do to an array, and \<^verbatim>\<open>Vue.delete\<close> to a string, has no
  term here.\<close>

definition Vue_set_ref :: "jsval \<Rightarrow> string \<Rightarrow> jsval \<Rightarrow> js_error + jsval" where
  "Vue_set_ref target key val =
     (case target of
        JObj obj \<Rightarrow> Inr (JObj (set_prop obj key val))
      | JArr xs \<Rightarrow> Inl Unmodelled
      | _ \<Rightarrow> Inl TypeError)"

definition Vue_delete_ref :: "jsval \<Rightarrow> string \<Rightarrow> js_error + jsval" where
  "Vue_delete_ref target key =
     (case target of
        JObj obj \<Rightarrow> Inr (JObj (delete_prop obj key))
      | JArr xs \<Rightarrow> Inl Unmodelled
      | JStr t \<Rightarrow> Inl Unmodelled
      | JBool b \<Rightarrow> Inr target
      | JNum n \<Rightarrow> Inr target
      | _ \<Rightarrow> Inl TypeError)"

definition js :: externals where
  "js = \<lparr> encodeURIComponent = encodeURIComponent_ref,
          decodeURIComponent = decodeURIComponent_ref,
          JSON_stringify = stringify,
          JSON_parse = JSON_parse_ref,
          parseInt = parseInt_ref,
          merge = merge_ref,
          Vue_set = Vue_set_ref,
          Vue_delete = Vue_delete_ref \<rparr>"

section \<open>Notions used in the properties\<close>

text \<open>A term ID is a number; the \<open>terms\<close> argument of \<^verbatim>\<open>addTerms\<close> is one ID or an array of
  IDs.\<close>

fun is_term_id :: "jsval \<Rightarrow> bool" where
  "is_term_id (JNum n) = True"
| "is_term_id v = False"

definition term_ids :: "jsval \<Rightarrow> jsval list option" where
  "term_ids terms =
     (case terms of
        JArr ts \<Rightarrow> if list_all is_term_id ts then Some ts else None
      | JNum n \<Rightarrow> Some [JNum n]
      | _ \<Rightarrow> None)"

text \<open>\<^verbatim>\<open>params.pagenum\<close> is a number that is at least 1.\<close>

definition pagenum_ok :: "jsobj \<Rightarrow> bool" where
  "pagenum_ok p = (case get_prop p ''pagenum'' of JNum n \<Rightarrow> 1 \<le> n | _ \<Rightarrow> False)"

text \<open>The events that cannot take \<^verbatim>\<open>pagenum\<close> below 1: a page selection of a number that
  is at least 1, a restored snapshot whose \<^verbatim>\<open>pagenum\<close> is one, and a taxonomy assignment
  to a name other than \<^verbatim>\<open>pagenum\<close>. Every other event qualifies.\<close>

fun keeps_page :: "action \<Rightarrow> bool" where
  "keeps_page (SelectPage page) = pagenum_ok [(''pagenum'', page)]"
| "keeps_page (ResetTerms taxonomy) = (taxonomy \<noteq> ''pagenum'')"
| "keeps_page (SetTerms taxonomy terms) = (taxonomy \<noteq> ''pagenum'')"
| "keeps_page (Navigate (Some snapshot) POP) = pagenum_ok snapshot"
| "keeps_page a = True"

text \<open>The events other than a reaction of the watcher and a back or forward navigation.\<close>

fun quiet :: "action \<Rightarrow> bool" where
  "quiet React = False"
| "quiet (Navigate location_state POP) = False"
| "quiet a = True"

text \<open>The history entry a reaction pushes: the current path, \<^verbatim>\<open>?\<close> and the serialised
  parameters, with the parameters as its state.\<close>

definition history_entry :: "externals \<Rightarrow> string \<Rightarrow> jsobj \<Rightarrow> string \<times> jsobj" where
  "history_entry E pathname p = (pathname @ ''?'' @ serializeParams E p, p)"

section \<open>Example inputs\<close>

definition example_config :: config where
  "example_config =
     \<lparr>ver = 1, post_type = ''posts'', per_page = 10,
      meta_fields = [(''price'', JStr ''number''), (''colour'', JStr ''string'')],
      initial_page = 1, initial_search = [], initial_order = ''desc'',
      initial_orderby = ''date'',
      initial_taxonomies = [(''categories'', JArr [JNum 1, JNum 2])],
      initial_meta_query = []\<rparr>"

text \<open>The component as \<^verbatim>\<open>created\<close> leaves it when the URL has no query string.\<close>

definition example_state :: state where
  "example_state = reset js example_config data"

text \<open>The same configuration with 2 as its initial page, and the component as \<^verbatim>\<open>created\<close>
  leaves it then.\<close>

definition example_config_page2 :: config where
  "example_config_page2 = example_config\<lparr>initial_page := 2\<rparr>"

definition example_state_page2 :: state where
  "example_state_page2 = reset js example_config_page2 data"

section \<open>Properties\<close>

text \<open>
  C2 (the examples of the pagination window, as the claim lists them). The claim's
  sequences for 20 pages are not what \<open>pages\<close> returns: on page 1 the window holds the
  nine pages 1..9, and on page 20 the nine pages 12..20.
\<close>

theorem pages_claimed_examples_counterexample:
  "pages 20 1 \<noteq> map JNum [1, 2, 3, 4, 5] @ [hellip, JNum 20]
   \<and> pages 20 20 \<noteq> [JNum 1, hellip] @ map JNum [16, 17, 18, 19, 20]"
  by (simp add: pages_def range_lodash_def upto.simps)

text \<open>
  C2, amended: no pages give the empty sequence; five pages give 1..5 whatever the
  current page; with 20 pages, page 1 gives 1..9, the ellipsis and 20, and page 20 gives
  1, the ellipsis and 12..20.
\<close>

theorem pages_examples:
  "pages 0 c = []
   \<and> pages 5 c = map JNum [1, 2, 3, 4, 5]
   \<and> pages 20 1 = map JNum [1, 2, 3, 4, 5, 6, 7, 8, 9] @ [hellip, JNum 20]
   \<and> pages 20 20 = [JNum 1, hellip] @ map JNum [12, 13, 14, 15, 16, 17, 18, 19, 20]"
  by (simp add: pages_def range_lodash_def upto.simps)

subsection \<open>Properties of objects and of the store\<close>

lemma map_of_set_prop: "map_of (set_prop obj k v) = (map_of obj)(k \<mapsto> v)"
  by (induction obj) auto

lemma get_prop_set_prop:
  "get_prop (set_prop obj k v) k' = (if k' = k then v else get_prop obj k')"
  by (simp add: get_prop_def map_of_set_prop)

lemma map_of_delete_prop: "map_of (delete_prop obj k) = (map_of obj)(k := None)"
  by (induction obj) (auto simp: delete_prop_def)

lemma hget_set_prop: "hget (set_prop obj k v) k' = (if k' = k then v else hget obj k')"
  by (simp add: hget_def map_of_set_prop)

lemma hget_delete_prop:
  "hget (delete_prop obj k) k' = (if k' = k then Atom AUndefined else hget obj k')"
  by (simp add: hget_def map_of_delete_prop)

lemma object_of_simps:
  "object_of st [] = []"
  "object_of st ((k, h) # q) = (k, tree_of st h) # object_of st q"
  by (simp_all add: object_of_def)

lemma tree_of_hval_of_atom: "\<forall>obj. v \<noteq> JObj obj \<Longrightarrow> tree_of st (hval_of a v) = v"
  by (cases v) (auto simp: tree_of_def)

lemma get_prop_object_of: "get_prop (object_of st q) k = tree_of st (hget q k)"
  by (induction q) (auto simp: get_prop_def object_of_simps hget_def tree_of_def)

text \<open>Stores that agree from address a on read refs_of a p alike.\<close>
lemma object_of_agree:
  "\<forall>x \<ge> a. st x = st' x \<Longrightarrow> object_of st (refs_of a p) = object_of st' (refs_of a p)"
proof (induction p arbitrary: a)
  case Nil
  then show ?case by (simp add: object_of_simps)
next
  case (Cons kv p)
  obtain k v where kv: "kv = (k, v)" by (cases kv)
  have "object_of st (refs_of (Suc a) p) = object_of st' (refs_of (Suc a) p)"
    using Cons.IH[of "Suc a"] Cons.prems by simp
  moreover have "tree_of st (hval_of a v) = tree_of st' (hval_of a v)"
    using Cons.prems by (cases v) (auto simp: tree_of_def)
  ultimately show ?case by (simp add: kv object_of_simps)
qed

lemma store_of_below: "x < a \<Longrightarrow> store_of a p x = None"
  by (induction p arbitrary: a) (auto split: jsval.splits)

lemma object_of_store_of: "object_of (store_of a p) (refs_of a p) = p"
proof (induction p arbitrary: a)
  case Nil
  then show ?case by (simp add: object_of_simps)
next
  case (Cons kv p)
  obtain k v where kv: "kv = (k, v)" by (cases kv)
  have "object_of (store_of a ((k, v) # p)) (refs_of (Suc a) p)
        = object_of (store_of (Suc a) p) (refs_of (Suc a) p)"
    by (rule object_of_agree) (auto split: jsval.splits)
  then have r: "object_of (store_of a ((k, v) # p)) (refs_of (Suc a) p) = p"
    using Cons.IH by simp
  have "tree_of (store_of a ((k, v) # p)) (hval_of a v) = v"
    by (cases v) (auto simp: tree_of_def)
  with r show ?case by (simp add: kv object_of_simps)
qed

text \<open>The first property named k, when it holds an object: its reference, and what an
  assignment through the reference does to the tree.\<close>
lemma refs_of_object:
  assumes "map_of p k = Some (JObj obj)"
  shows "\<exists>r \<ge> a. map_of (refs_of a p) k = Some (Ref r) \<and> store_of a p r = Some obj
           \<and> (\<forall>X. object_of ((store_of a p)(r := Some X)) (refs_of a p) = set_prop p k (JObj X))"
  using assms
proof (induction p arbitrary: a)
  case Nil
  then show ?case by simp
next
  case (Cons kv p)
  obtain k' v' where kv: "kv = (k', v')" by (cases kv)
  define S where "S = store_of a ((k', v') # p)"
  have S_ge: "\<forall>x \<ge> Suc a. S x = store_of (Suc a) p x"
    unfolding S_def by (auto split: jsval.splits)
  have S_a: "\<And>o'. v' = JObj o' \<Longrightarrow> S a = Some o'"
    unfolding S_def by simp
  show ?case
  proof (cases "k' = k")
    case True
    then have v': "v' = JObj obj" using Cons.prems kv by simp
    have 1: "map_of (refs_of a ((k', v') # p)) k = Some (Ref a)"
      using True v' by simp
    have 3: "object_of (S(a := Some X)) (refs_of a ((k', v') # p))
               = set_prop ((k', v') # p) k (JObj X)" for X
    proof -
      have "object_of (S(a := Some X)) (refs_of (Suc a) p)
            = object_of (store_of (Suc a) p) (refs_of (Suc a) p)"
        by (rule object_of_agree) (use S_ge in auto)
      then have "object_of (S(a := Some X)) (refs_of (Suc a) p) = p"
        by (simp add: object_of_store_of)
      moreover have "tree_of (S(a := Some X)) (Ref a) = JObj X"
        by (simp add: tree_of_def)
      ultimately show ?thesis using True v' by (simp add: object_of_simps)
    qed
    from 1 S_a[OF v'] 3 show ?thesis unfolding kv S_def by blast
  next
    case False
    then have "map_of p k = Some (JObj obj)" using Cons.prems kv by simp
    from Cons.IH[OF this, of "Suc a"] obtain r where r: "r \<ge> Suc a"
      "map_of (refs_of (Suc a) p) k = Some (Ref r)" "store_of (Suc a) p r = Some obj"
      "\<And>X. object_of ((store_of (Suc a) p)(r := Some X)) (refs_of (Suc a) p) = set_prop p k (JObj X)"
      by blast
    have ne: "r \<noteq> a" "a \<le> r" using r(1) by simp_all
    have 1: "map_of (refs_of a ((k', v') # p)) k = Some (Ref r)"
      using False r(2) by simp
    have 2: "S r = Some obj" using S_ge r(1,3) by simp
    have 3: "object_of (S(r := Some X)) (refs_of a ((k', v') # p))
               = set_prop ((k', v') # p) k (JObj X)" for X
    proof -
      have "object_of (S(r := Some X)) (refs_of (Suc a) p)
            = object_of ((store_of (Suc a) p)(r := Some X)) (refs_of (Suc a) p)"
        by (rule object_of_agree) (use S_ge in auto)
      then have "object_of (S(r := Some X)) (refs_of (Suc a) p) = set_prop p k (JObj X)"
        using r(4) by simp
      moreover have "tree_of (S(r := Some X)) (hval_of a v') = v'"
        using ne S_a by (cases v') (auto simp: tree_of_def)
      ultimately show ?thesis using False by (simp add: object_of_simps)
    qed
    from ne(2) 1 2 3 show ?thesis unfolding kv S_def by blast
  qed
qed

lemma refs_of_atom:
  assumes "map_of p k = Some v" and "\<forall>obj. v \<noteq> JObj obj"
  shows "map_of (refs_of a p) k = Some (hval_of 0 v)"
  using assms
proof (induction p arbitrary: a)
  case Nil
  then show ?case by simp
next
  case (Cons kv p)
  obtain k' v' where kv: "kv = (k', v')" by (cases kv)
  show ?case using Cons kv by (cases v) auto
qed

lemma refs_of_none: "map_of p k = None \<Longrightarrow> map_of (refs_of a p) k = None"
proof (induction p arbitrary: a)
  case Nil
  then show ?case by simp
next
  case (Cons kv p)
  then show ?case by (cases kv) (auto split: if_splits)
qed


lemma get_prop_Some: "get_prop p k = v \<Longrightarrow> v \<noteq> JUndefined \<Longrightarrow> map_of p k = Some v"
  by (auto simp: get_prop_def split: option.splits)

lemma process_meta_query_loaded:
  assumes "hget q ''meta_query'' = hget (refs_of 0 p) ''meta_query''"
  shows "case process_meta_query (store_of 0 p) q of
           Inl e \<Rightarrow> e = TypeError \<and> (\<forall>obj. get_prop p ''meta_query'' \<noteq> JObj obj)
         | Inr (q', st') \<Rightarrow> q' = q \<and> object_of st' (refs_of 0 p) = with_relation p"
proof (cases "map_of p ''meta_query''")
  case None
  then have "hget q ''meta_query'' = Atom AUndefined"
    using assms by (simp add: hget_def refs_of_none)
  then show ?thesis using None by (simp add: process_meta_query_def get_prop_def)
next
  case (Some v)
  show ?thesis
  proof (cases "\<exists>obj. v = JObj obj")
    case True
    then obtain obj where v: "v = JObj obj" by blast
    from refs_of_object[of p "''meta_query''" obj 0] Some v obtain r where
      r: "map_of (refs_of 0 p) ''meta_query'' = Some (Ref r)" "store_of 0 p r = Some obj"
      "\<And>X. object_of ((store_of 0 p)(r := Some X)) (refs_of 0 p)
              = set_prop p ''meta_query'' (JObj X)"
      by blast
    have h: "hget q ''meta_query'' = Ref r" using assms r(1) by (simp add: hget_def)
    have g: "get_prop p ''meta_query'' = JObj obj" using Some v by (simp add: get_prop_def)
    show ?thesis
      using h r(2,3) g
      by (simp add: process_meta_query_def with_relation_def object_of_store_of)
  next
    case False
    then have a: "map_of (refs_of 0 p) ''meta_query'' = Some (hval_of 0 v)"
      using refs_of_atom[OF Some] by blast
    have h: "hget q ''meta_query'' = hval_of 0 v" using assms a by (simp add: hget_def)
    have g: "get_prop p ''meta_query'' = v" using Some by (simp add: get_prop_def)
    show ?thesis
      using False h g
      by (cases v) (auto simp: process_meta_query_def with_relation_def object_of_store_of)
  qed
qed

lemma eval_query_params_params:
  assumes "eval_query_params mf p = Inr (q, p')"
  shows "p' = with_relation p"
proof -
  define this where "this = refs_of 0 p"
  have *: "process_meta_query (store_of 0 p) x = Inr (y, st')
           \<Longrightarrow> hget x ''meta_query'' = hget this ''meta_query''
           \<Longrightarrow> object_of st' this = with_relation p" for x y st'
    using process_meta_query_loaded[of x p] unfolding this_def by auto
  from assms show ?thesis
    unfolding eval_query_params_def query_params_def Let_def this_def[symmetric]
    by (auto split: sum.splits if_splits dest!: * simp: hget_set_prop hget_delete_prop)
qed

lemma get_prop_with_relation:
  "k \<noteq> ''meta_query'' \<Longrightarrow> get_prop (with_relation p) k = get_prop p k"
  by (auto simp: with_relation_def get_prop_set_prop split: jsval.splits)

lemma fetchData_begin_params:
  "params (fst (fetchData_begin cfg s)) = params s
   \<or> params (fst (fetchData_begin cfg s)) = with_relation (params s)"
  by (auto simp: fetchData_begin_def constructURL_def Let_def
      split: sum.splits prod.splits dest: eval_query_params_params)

lemma fetchData_begin_pagenum:
  "get_prop (params (fst (fetchData_begin cfg s))) ''pagenum'' = get_prop (params s) ''pagenum''"
  using fetchData_begin_params[of cfg s] by (auto simp: get_prop_with_relation)

lemma fetchData_begin_frame:
  "page_updated (fst (fetchData_begin cfg s)) = page_updated s"
  "suppress_history_state (fst (fetchData_begin cfg s)) = suppress_history_state s"
  "history (fst (fetchData_begin cfg s)) = history s"
  "wp_data (fst (fetchData_begin cfg s)) = wp_data s"
  "pagination_data (fst (fetchData_begin cfg s)) = pagination_data s"
  by (auto simp: fetchData_begin_def Let_def split: sum.splits prod.splits)

lemma handler_pagenum:
  "get_prop (params (handler E cfg pathname s)) ''pagenum''
     = (if page_updated s then get_prop (params s) ''pagenum'' else JNum 1)"
  by (simp add: handler_def Let_def pushHistoryState_def fetchData_begin_pagenum
      get_prop_set_prop)

lemma handler_flags:
  "page_updated (handler E cfg pathname s) = False"
  "suppress_history_state (handler E cfg pathname s) = False"
  by (simp_all add: handler_def Let_def pushHistoryState_def)

lemma handler_history:
  "history (handler E cfg pathname s) =
     (if suppress_history_state s then history s
      else history s @ [(pathname @ ''?'' @ serializeParams E (params (handler E cfg pathname s)),
                         params (handler E cfg pathname s))])"
  by (simp add: handler_def Let_def pushHistoryState_def fetchData_begin_frame)

subsection \<open>Serialisation\<close>

lemma get_prop_distinct:
  "distinct (map fst obj) \<Longrightarrow> (k, v) \<in> set obj \<Longrightarrow> get_prop obj k = v"
  by (simp add: get_prop_def)

lemma split_no_sep: "c \<notin> set s \<Longrightarrow> split c s = [s]"
  by (induction s) (auto split: list.splits)

lemma split_append: "c \<notin> set s \<Longrightarrow> split c (s @ c # t) = s # split c t"
  by (induction s) (auto split: list.splits)

lemma split_join:
  "segs \<noteq> [] \<Longrightarrow> \<forall>s \<in> set segs. c \<notin> set s \<Longrightarrow> split c (join [c] segs) = segs"
proof (induction "[c]" segs rule: join.induct)
  case 1
  then show ?case by simp
next
  case (2 x)
  then show ?case by (simp add: split_no_sep)
next
  case (3 x y zs)
  then show ?case by (simp add: split_append)
qed

lemma serialize_segments:
  assumes "distinct (map fst p)"
  shows "serializeParams E p =
     join ''&''
       (map (\<lambda>kv. encodeURIComponent E (fst kv) @ ''='' @
                   encodeURIComponent E (string_arg (JSON_stringify E (snd kv))))
          (filter (\<lambda>kv. truthy (snd kv)) p))"
proof -
  have g: "\<And>kv. kv \<in> set p \<Longrightarrow> get_prop p (fst kv) = snd kv"
    using assms get_prop_distinct by (metis prod.collapse)
  have "filter (\<lambda>k. truthy (get_prop p k)) (map fst p)
        = map fst (filter (\<lambda>kv. truthy (snd kv)) p)"
    unfolding filter_map comp_def using g by (metis (mono_tags, lifting) filter_cong)
  then show ?thesis
    unfolding serializeParams_def using g
    by (auto simp: comp_def intro!: arg_cong[where f="join ''&''"])
qed

lemma set_prop_append: "k \<notin> fst ` set obj \<Longrightarrow> set_prop obj k v = obj @ [(k, v)]"
  by (induction obj) auto

lemma unserialize_each_segments:
  assumes "\<forall>kv \<in> set p. uri_safe E (fst kv) \<and> json_safe E (snd kv)"
    and "distinct (map fst acc @ map fst p)" and "''__proto__'' \<notin> fst ` set p"
  shows "unserialize_each E
           (map (\<lambda>kv. [encodeURIComponent E (fst kv),
                        encodeURIComponent E (string_arg (JSON_stringify E (snd kv)))]) p) acc
         = Inr (acc @ p)"
  using assms
proof (induction p arbitrary: acc)
  case Nil
  then show ?case by simp
next
  case (Cons kv p)
  obtain k v where kv: "kv = (k, v)" by (cases kv)
  have k: "k \<notin> fst ` set acc" "k \<noteq> ''__proto__''" using Cons.prems kv by auto
  have d: "distinct (map fst (acc @ [(k, v)]) @ map fst p)" using Cons.prems kv by auto
  have "unserialize_each E
           (map (\<lambda>kv. [encodeURIComponent E (fst kv),
                        encodeURIComponent E (string_arg (JSON_stringify E (snd kv)))]) p)
           (acc @ [(k, v)])
         = Inr ((acc @ [(k, v)]) @ p)"
    using Cons.IH[OF _ d] Cons.prems by auto
  then show ?case
    using Cons.prems k
    by (simp add: kv index_def string_arg_def uri_safe_def json_safe_def assign_prop_def
        set_prop_append)
qed

text \<open>
  C1 (round trip: \<open>unserializeParams (serializeParams p)\<close> gives \<open>p\<close> back) does not hold of
  the code. The docstrings of the two functions give one and the same format for the
  parameter string, \<^verbatim>\<open>param1=value1&param2=value2\<close>, with no \<^verbatim>\<open>?\<close> in front (lines 577 and
  592). \<^verbatim>\<open>serializeParams\<close> returns that format; \<^verbatim>\<open>unserializeParams\<close> begins with
  \<^verbatim>\<open>substring(1)\<close> and drops the first character of what it is given. Here the evaluation
  at \<^verbatim>\<open>{search: 'a'}\<close>: the string is \<^verbatim>\<open>search=%22a%22\<close>, and what comes back has the key
  \<^verbatim>\<open>earch\<close>.
\<close>

theorem unserializeParams_drops_first_character:
  "serializeParams js [(''search'', JStr ''a'')] = ''search=%22a%22''
   \<and> unserializeParams js (serializeParams js [(''search'', JStr ''a'')])
       = Inr [(''earch'', JStr ''a'')]"
  by code_simp

text \<open>
  What the two functions do agree on is the string with one more character in front, as
  \<^verbatim>\<open>window.location.search\<close> has its \<^verbatim>\<open>?\<close>: for a non-empty mapping \<open>p\<close> (distinct keys, none
  of them \<^verbatim>\<open>__proto__\<close>) whose values are truthy and JSON-representable and whose keys
  survive the URL, \<^verbatim>\<open>unserializeParams('?' + serializeParams(p))\<close> is \<open>p\<close>.
\<close>

lemma unserialize_after_question_mark:
  assumes "p \<noteq> []" and "distinct (map fst p)" and "''__proto__'' \<notin> fst ` set p"
    and "\<forall>kv \<in> set p. truthy (snd kv) \<and> uri_safe E (fst kv) \<and> json_safe E (snd kv)"
  shows "unserializeParams E (''?'' @ serializeParams E p) = Inr p"
proof -
  let ?seg = "\<lambda>kv. encodeURIComponent E (fst kv) @ ''='' @
                   encodeURIComponent E (string_arg (JSON_stringify E (snd kv)))"
  let ?pair = "\<lambda>kv. [encodeURIComponent E (fst kv),
                      encodeURIComponent E (string_arg (JSON_stringify E (snd kv)))]"
  have f: "filter (\<lambda>kv. truthy (snd kv)) p = p"
    using assms(4) by (simp add: filter_id_conv)
  have s: "serializeParams E p = join ''&'' (map ?seg p)"
    using serialize_segments[OF assms(2)] f by simp
  have amp: "\<forall>s \<in> set (map ?seg p). CHR ''&'' \<notin> set s"
    using assms(4) by (auto simp: uri_safe_def json_safe_def)
  have sp: "split (CHR ''&'') (join ''&'' (map ?seg p)) = map ?seg p"
    using split_join[OF _ amp] assms(1) by simp
  have eq: "\<And>kv. kv \<in> set p \<Longrightarrow> split (CHR ''='') (?seg kv) = ?pair kv"
    using assms(4) by (simp add: uri_safe_def json_safe_def split_append split_no_sep)
  have "unserializeParams E (''?'' @ serializeParams E p) = unserialize_each E (map ?pair p) []"
  proof -
    have "map (split (CHR ''='')) (map ?seg p) = map ?pair p"
      using eq by simp
    moreover have "drop 1 (''?'' @ join ''&'' (map ?seg p)) = join ''&'' (map ?seg p)"
      by simp
    ultimately show ?thesis
      unfolding unserializeParams_def Let_def s using sp by (simp only:)
  qed
  also have "\<dots> = Inr ([] @ p)"
    by (rule unserialize_each_segments) (use assms in auto)
  finally show ?thesis by simp
qed

lemma unserialize_after_question_mark_example:
  "unserializeParams js
     (''?'' @ serializeParams js
        [(''search'', JStr ''a b''), (''pagenum'', JNum 2), (''cat'', JArr [JNum 3])])
   = Inr [(''search'', JStr ''a b''), (''pagenum'', JNum 2), (''cat'', JArr [JNum 3])]"
proof -
  let ?p = "[(''search'', JStr ''a b''), (''pagenum'', JNum 2), (''cat'', JArr [JNum 3])]"
  have h1: "?p \<noteq> []" by simp
  have h2: "distinct (map fst ?p)" by simp
  have h3: "''__proto__'' \<notin> fst ` set ?p" by simp
  have h4: "\<forall>kv \<in> set ?p. truthy (snd kv) \<and> uri_safe js (fst kv) \<and> json_safe js (snd kv)"
    by code_simp
  show ?thesis using unserialize_after_question_mark[OF h1 h2 h3 h4] .
qed

text \<open>The empty mapping is serialised to the empty string, whose one empty segment has no
  value: \<^verbatim>\<open>JSON.parse\<close> throws on \<^verbatim>\<open>'undefined'\<close>.\<close>

lemma unserializeParams_empty:
  "unserializeParams js (serializeParams js []) = Inl SyntaxError
   \<and> unserializeParams js (''?'' @ serializeParams js []) = Inl SyntaxError"
  by code_simp

text \<open>
  C7 (what \<^verbatim>\<open>serializeParams\<close> omits), as the claim states it: empty arrays and empty
  objects are among the omitted values. They are truthy, and are written.
\<close>

theorem serializeParams_empty_containers_counterexample:
  "serializeParams js [(''category'', JArr [])] = ''category=%5B%5D''
   \<and> serializeParams js [(''meta_query'', JObj [])] = ''meta_query=%7B%7D''"
  by code_simp

text \<open>
  C7, amended: \<^verbatim>\<open>serializeParams\<close> omits exactly the keys whose values are falsy, which
  are \<^verbatim>\<open>undefined\<close>, \<^verbatim>\<open>null\<close>, \<^verbatim>\<open>false\<close>, \<^verbatim>\<open>0\<close> and the empty string, and no array or object;
  each remaining key is written as the encoded key, \<^verbatim>\<open>=\<close> and the encoded JSON text of
  the value, and these are joined by \<^verbatim>\<open>&\<close>.
\<close>

theorem serializeParams_omits_falsy:
  assumes "distinct (map fst p)"
  shows "serializeParams E p =
           join ''&''
             (map (\<lambda>kv. encodeURIComponent E (fst kv) @ ''='' @
                         encodeURIComponent E (string_arg (JSON_stringify E (snd kv))))
                (filter (\<lambda>kv. snd kv \<notin> {JUndefined, JNull, JBool False, JNum 0, JStr []})
                   p))"
proof -
  have "\<And>v. truthy v = (v \<notin> {JUndefined, JNull, JBool False, JNum 0, JStr []})"
    by (case_tac v) auto
  then show ?thesis using serialize_segments[OF assms] by simp
qed

theorem serializeParams_omits_falsy_witness:
  "serializeParams js
     [(''search'', JStr []), (''pagenum'', JNum 0), (''category'', JArr []), (''ver'', JNum 1)]
   = ''category=%5B%5D&ver=1''"
proof -
  let ?p = "[(''search'', JStr []), (''pagenum'', JNum 0), (''category'', JArr []),
             (''ver'', JNum 1)]"
  have d: "distinct (map fst ?p)" by simp
  have "join ''&''
          (map (\<lambda>kv. encodeURIComponent js (fst kv) @ ''='' @
                      encodeURIComponent js (string_arg (JSON_stringify js (snd kv))))
             (filter (\<lambda>kv. snd kv \<notin> {JUndefined, JNull, JBool False, JNum 0, JStr []}) ?p))
        = ''category=%5B%5D&ver=1''"
    by code_simp
  then show ?thesis using serializeParams_omits_falsy[OF d, of js] by simp
qed

subsection \<open>The reference implementation of the URL codec\<close>

text \<open>Every string that is well-formed UTF-8 survives the URL in the reference
  implementation: the hypothesis on the keys in the round trip asks nothing more of
  them.\<close>

lemma hex_digits_table:
  "list_all (\<lambda>n. hex_value (hex_digit n) = Some n
                \<and> hex_digit n \<noteq> CHR ''&'' \<and> hex_digit n \<noteq> CHR ''='') [0..<16]"
  by code_simp

lemma hex_digit_value:
  assumes "n < 16"
  shows "hex_value (hex_digit n) = Some n" "hex_digit n \<noteq> CHR ''&''" "hex_digit n \<noteq> CHR ''=''"
proof -
  have "n \<in> set [0..<16]" using assms by simp
  with hex_digits_table
  have "hex_value (hex_digit n) = Some n \<and> hex_digit n \<noteq> CHR ''&'' \<and> hex_digit n \<noteq> CHR ''=''"
    unfolding list_all_iff by blast
  then show "hex_value (hex_digit n) = Some n" "hex_digit n \<noteq> CHR ''&''" "hex_digit n \<noteq> CHR ''=''"
    by simp_all
qed

lemma unreserved_not_special:
  "uri_unreserved c \<Longrightarrow> c \<noteq> CHR ''%'' \<and> c \<noteq> CHR ''&'' \<and> c \<noteq> CHR ''=''"
  by (auto simp: uri_unreserved_def Let_def)

lemma byte_split: "char_of (16 * ((of_char c :: nat) div 16) + of_char c mod 16) = c"
  by simp

lemma of_char_div: "(of_char c :: nat) div 16 < 16"
proof -
  have "(of_char c :: nat) < 16 * 16" by simp
  then show ?thesis by (simp only: less_mult_imp_div_less)
qed

lemma percent_decode_encode:
  "length s \<le> n \<Longrightarrow> percent_decode n (encodeURIComponent_ref s) = Some s"
proof (induction s arbitrary: n)
  case Nil
  then show ?case by (cases n) (simp_all add: encodeURIComponent_ref_def)
next
  case (Cons c s)
  then obtain m where n: "n = Suc m" "length s \<le> m" by (cases n) auto
  have ih: "percent_decode m (encodeURIComponent_ref s) = Some s" using Cons.IH n(2) by simp
  show ?case
  proof (cases "uri_unreserved c")
    case True
    then show ?thesis
      using ih unreserved_not_special[OF True]
      by (simp add: n encodeURIComponent_ref_def encode_byte_def)
  next
    case False
    have "hex_value (hex_digit (of_char c div 16)) = Some (of_char c div 16)"
      by (rule hex_digit_value) (rule of_char_div)
    moreover have "hex_value (hex_digit (of_char c mod 16)) = Some (of_char c mod 16)"
      by (rule hex_digit_value) simp
    ultimately show ?thesis
      using ih False
      by (simp add: n encodeURIComponent_ref_def encode_byte_def byte_split del: mod_mult_self1)
  qed
qed

lemma encode_byte_no_separator:
  "CHR ''&'' \<notin> set (encode_byte c) \<and> CHR ''='' \<notin> set (encode_byte c)"
proof (cases "uri_unreserved c")
  case True
  then show ?thesis using unreserved_not_special[OF True] by (auto simp: encode_byte_def)
next
  case False
  have "hex_digit (of_char c div 16) \<noteq> CHR ''&''" "hex_digit (of_char c div 16) \<noteq> CHR ''=''"
    by (rule hex_digit_value, rule of_char_div)+
  moreover have "hex_digit (of_char c mod 16) \<noteq> CHR ''&''" "hex_digit (of_char c mod 16) \<noteq> CHR ''=''"
    by (rule hex_digit_value, simp)+
  ultimately show ?thesis using False by (auto simp: encode_byte_def)
qed

lemma length_encode: "length s \<le> length (encodeURIComponent_ref s)"
  by (induction s) (auto simp: encodeURIComponent_ref_def encode_byte_def)

lemma uri_safe_reference:
  assumes "valid_utf8 (length s) (map of_char s)"
  shows "uri_safe js s"
proof -
  have "percent_decode (length (encodeURIComponent_ref s)) (encodeURIComponent_ref s) = Some s"
    by (rule percent_decode_encode) (rule length_encode)
  then have "decodeURIComponent_ref (encodeURIComponent_ref s) = Inr s"
    using assms by (simp add: decodeURIComponent_ref_def)
  moreover have "CHR ''&'' \<notin> set (encodeURIComponent_ref s)"
    "CHR ''='' \<notin> set (encodeURIComponent_ref s)"
    using encode_byte_no_separator by (auto simp: encodeURIComponent_ref_def)
  ultimately show ?thesis by (simp add: uri_safe_def js_def)
qed

lemma valid_utf8_ascii:
  "\<forall>c \<in> set s. (of_char c :: nat) < 128 \<Longrightarrow> length s \<le> n \<Longrightarrow> valid_utf8 n (map of_char s)"
proof (induction s arbitrary: n)
  case Nil
  then show ?case by (cases n) simp_all
next
  case (Cons c s)
  then show ?case by (cases n) simp_all
qed

subsection \<open>Taxonomy terms\<close>

lemma is_term_id_primitive: "is_term_id v \<Longrightarrow> is_primitive v"
  by (cases v) auto

lemma list_ex_strict_equal:
  "is_term_id t \<Longrightarrow> list_ex (strict_equal t) ys = (t \<in> set ys)"
  by (auto simp: list_ex_iff strict_equal_def is_term_id_primitive)

lemma addTerms_loop_ids:
  assumes "list_all is_term_id ts" and "distinct ys"
  shows "\<exists>zs. addTerms_loop (JArr ys) ts = Inr (JArr (ys @ zs))
           \<and> distinct (ys @ zs) \<and> set zs = set ts - set ys"
  using assms
proof (induction ts arbitrary: ys)
  case Nil
  then show ?case by simp
next
  case (Cons t ts)
  show ?case
  proof (cases "t \<in> set ys")
    case True
    with Cons.IH[of ys] Cons.prems obtain zs where
      "addTerms_loop (JArr ys) ts = Inr (JArr (ys @ zs))" "distinct (ys @ zs)"
      "set zs = set ts - set ys" by auto
    with True Cons.prems show ?thesis
      by (auto simp: list_ex_strict_equal intro!: exI[of _ zs])
  next
    case False
    with Cons.IH[of "ys @ [t]"] Cons.prems obtain zs where
      z: "addTerms_loop (JArr (ys @ [t])) ts = Inr (JArr ((ys @ [t]) @ zs))"
      "distinct ((ys @ [t]) @ zs)" "set zs = set ts - set (ys @ [t])" by auto
    with False Cons.prems show ?thesis
      by (auto simp: list_ex_strict_equal intro!: exI[of _ "t # zs"])
  qed
qed

lemma addTerms_loop_present:
  assumes "list_all is_term_id ts" and "set ts \<subseteq> set ys"
  shows "addTerms_loop (JArr ys) ts = Inr (JArr ys)"
  using assms by (induction ts) (auto simp: list_ex_strict_equal)

lemma set_prop_same: "map_of obj k = Some v \<Longrightarrow> set_prop obj k v = obj"
  by (induction obj) (auto split: if_splits)

lemma terms_array_ids: "term_ids terms = Some ts \<Longrightarrow> terms_array terms = Inr ts"
  by (auto simp: term_ids_def terms_array_def split: jsval.splits if_splits)

text \<open>
  C10 (\<^verbatim>\<open>addTerms\<close> keeps the term list free of duplicates): when \<^verbatim>\<open>params[taxonomy]\<close> is an
  array \<open>ys\<close> without duplicates and \<open>terms\<close> is one ID or an array \<open>ts\<close> of IDs, \<^verbatim>\<open>addTerms\<close>
  returns, the list becomes \<open>ys\<close> followed by IDs \<open>zs\<close> that are exactly the IDs of \<open>ts\<close> not
  in \<open>ys\<close>, it has no duplicates, and a second call with the same \<open>terms\<close> changes nothing.
\<close>

theorem addTerms_no_duplicates:
  assumes "get_prop (params s) taxonomy = JArr ys" and "distinct ys"
    and "term_ids terms = Some ts"
  shows "\<exists>s' zs. addTerms taxonomy terms s = Inr s'
           \<and> get_prop (params s') taxonomy = JArr (ys @ zs)
           \<and> set zs = set ts - set ys
           \<and> distinct (ys @ zs)
           \<and> addTerms taxonomy terms s' = Inr s'"
proof -
  have ids: "list_all is_term_id ts"
    using assms(3) by (auto simp: term_ids_def split: jsval.splits if_splits)
  have "map_of (params s) taxonomy = Some (JArr ys)"
    using assms(1) by (simp add: get_prop_Some)
  then have key: "taxonomy \<in> fst ` set (params s)"
    by (metis map_of_eq_None_iff option.distinct(1))
  obtain zs where z: "addTerms_loop (JArr ys) ts = Inr (JArr (ys @ zs))"
    "distinct (ys @ zs)" "set zs = set ts - set ys"
    using addTerms_loop_ids[OF ids assms(2)] by auto
  let ?s' = "s\<lparr>params := set_prop (params s) taxonomy (JArr (ys @ zs))\<rparr>"
  have 1: "addTerms taxonomy terms s = Inr ?s'"
    using z key assms by (simp add: addTerms_def terms_array_ids update_in_place_def)
  have g: "get_prop (params ?s') taxonomy = JArr (ys @ zs)"
    by (simp add: get_prop_set_prop)
  have "addTerms_loop (JArr (ys @ zs)) ts = Inr (JArr (ys @ zs))"
    by (rule addTerms_loop_present[OF ids]) (use z in auto)
  moreover have "set_prop (params ?s') taxonomy (JArr (ys @ zs)) = params ?s'"
    by (rule set_prop_same) (simp add: map_of_set_prop)
  ultimately have 2: "addTerms taxonomy terms ?s' = Inr ?s'"
    using g assms(3) by (simp add: addTerms_def terms_array_ids update_in_place_def)
  from 1 2 g z show ?thesis by blast
qed

theorem addTerms_no_duplicates_witness:
  "\<exists>s' zs. addTerms ''categories'' (JArr [JNum 2, JNum 3, JNum 3]) example_state = Inr s'
           \<and> get_prop (params s') ''categories'' = JArr ([JNum 1, JNum 2] @ zs)
           \<and> set zs = set [JNum 2, JNum 3, JNum 3] - set [JNum 1, JNum 2]
           \<and> distinct ([JNum 1, JNum 2] @ zs)
           \<and> addTerms ''categories'' (JArr [JNum 2, JNum 3, JNum 3]) s' = Inr s'"
proof -
  have 1: "get_prop (params example_state) ''categories'' = JArr [JNum 1, JNum 2]"
    by code_simp
  have 2: "distinct [JNum 1, JNum 2]" by simp
  have 3: "term_ids (JArr [JNum 2, JNum 3, JNum 3]) = Some [JNum 2, JNum 3, JNum 3]"
    by code_simp
  show ?thesis by (rule addTerms_no_duplicates[OF 1 2 3])
qed

subsection \<open>The request parameters\<close>

text \<open>
  C8 (the resolution of \<^verbatim>\<open>orderby\<close>), as the claim states it: every configured meta field
  of a type other than \<^verbatim>\<open>number\<close> gives \<^verbatim>\<open>meta_value\<close>. The test in the code is the truth
  value of \<^verbatim>\<open>this.meta_fields[orderby]\<close> (line 104): a meta field configured with the empty
  string as its type is not taken for one, and the derivation throws.
\<close>

theorem query_params_falsy_type_counterexample:
  "eval_query_params [(''price'', JStr [])]
     [(''orderby'', JStr ''price''), (''pagenum'', JNum 1), (''meta_query'', JObj [])]
   = Inl (Thrown orderby_message)"
  by code_simp

lemma hget_refs_of_string:
  "get_prop p k = JStr t \<Longrightarrow> hget (refs_of 0 p) k = Atom (AStr t)"
  using refs_of_atom[of p k "JStr t" 0] by (simp add: hget_def get_prop_Some)

lemma process_meta_query_object:
  assumes "hget q ''meta_query'' = hget (refs_of 0 p) ''meta_query''"
    and "get_prop p ''meta_query'' = JObj mq"
  shows "\<exists>st'. process_meta_query (store_of 0 p) q = Inr (q, st')"
  using process_meta_query_loaded[OF assms(1)] assms(2)
  by (auto split: sum.splits)

text \<open>
  C8, amended. For parameters whose \<^verbatim>\<open>orderby\<close> is a string \<open>ob\<close> and whose \<^verbatim>\<open>meta_query\<close> is
  an object: if \<open>ob\<close> names a configured meta field of type \<^verbatim>\<open>'number'\<close> the request has
  \<^verbatim>\<open>orderby\<close> \<^verbatim>\<open>'meta_value_num'\<close> and \<^verbatim>\<open>meta_key\<close> \<open>ob\<close>; if it names a configured meta field
  whose type is any other truthy value the request has \<^verbatim>\<open>orderby\<close> \<^verbatim>\<open>'meta_value'\<close> and
  \<^verbatim>\<open>meta_key\<close> \<open>ob\<close>; if it names no configured meta field, or one whose type is falsy, and
  is not one of the valid names, the derivation throws the validation message. The last
  part is stated for an \<open>ob\<close> that is not the name of a member of \<^verbatim>\<open>Object.prototype\<close>; what
  the code does with such a name is left out of the statement.
\<close>

theorem query_params_orderby:
  assumes "get_prop p ''orderby'' = JStr ob" and "get_prop p ''meta_query'' = JObj mq"
  shows "(map_of mf ob = Some (JStr ''number'') \<longrightarrow>
            (\<exists>q p'. eval_query_params mf p = Inr (q, p')
               \<and> get_prop q ''orderby'' = JStr ''meta_value_num''
               \<and> get_prop q ''meta_key'' = JStr ob))
       \<and> ((\<exists>t. map_of mf ob = Some t \<and> t \<noteq> JStr ''number'' \<and> truthy t) \<longrightarrow>
            (\<exists>q p'. eval_query_params mf p = Inr (q, p')
               \<and> get_prop q ''orderby'' = JStr ''meta_value''
               \<and> get_prop q ''meta_key'' = JStr ob))
       \<and> (((\<exists>t. map_of mf ob = Some t \<and> \<not> truthy t)
             \<or> map_of mf ob = None \<and> ob \<notin> set object_prototype_names)
            \<and> ob \<notin> set valid_orderbys \<longrightarrow>
            eval_query_params mf p = Inl (Thrown orderby_message))"
proof -
  define this where "this = refs_of 0 p"
  define q1 where "q1 = (if htruthy (hget this ''pagenum'')
     then delete_prop (set_prop this ''page'' (hget this ''pagenum'')) ''pagenum'' else this)"
  have o: "hget this ''orderby'' = Atom (AStr ob)"
    unfolding this_def using assms(1) by (rule hget_refs_of_string)
  have key: "property_key (Atom (AStr ob)) = ob" by (simp add: property_key_def)
  have q: "query_params mf (store_of 0 p) this =
      (if meta_field_is_number mf ob then
         process_meta_query (store_of 0 p)
           (set_prop (set_prop q1 ''orderby'' (Atom (AStr ''meta_value_num''))) ''meta_key''
              (Atom (AStr ob)))
       else if meta_field_truthy mf ob then
         process_meta_query (store_of 0 p)
           (set_prop (set_prop q1 ''orderby'' (Atom (AStr ''meta_value''))) ''meta_key''
              (Atom (AStr ob)))
       else if ob \<notin> set valid_orderbys then Inl (Thrown orderby_message)
       else process_meta_query (store_of 0 p) q1)"
    unfolding query_params_def Let_def q1_def[symmetric] o key
    by (simp add: not_valid_orderby_def)
  have m: "hget (set_prop (set_prop q1 ''orderby'' x) ''meta_key'' y) ''meta_query''
           = hget (refs_of 0 p) ''meta_query''" for x y
    unfolding q1_def this_def by (simp add: hget_set_prop hget_delete_prop)
  have ok: "\<exists>q p'. eval_query_params mf p = Inr (q, p')
               \<and> get_prop q ''orderby'' = JStr x \<and> get_prop q ''meta_key'' = JStr ob"
    if "query_params mf (store_of 0 p) this =
          process_meta_query (store_of 0 p)
            (set_prop (set_prop q1 ''orderby'' (Atom (AStr x))) ''meta_key'' (Atom (AStr ob)))"
    for x
  proof -
    obtain st' where "process_meta_query (store_of 0 p)
            (set_prop (set_prop q1 ''orderby'' (Atom (AStr x))) ''meta_key'' (Atom (AStr ob)))
          = Inr (set_prop (set_prop q1 ''orderby'' (Atom (AStr x))) ''meta_key'' (Atom (AStr ob)), st')"
      using process_meta_query_object[OF m assms(2)] by blast
    with that show ?thesis
      unfolding eval_query_params_def this_def[symmetric]
      by (simp add: get_prop_object_of hget_set_prop tree_of_def)
  qed
  have 1: "meta_field_is_number mf ob" if "map_of mf ob = Some (JStr ''number'')"
    using that by (simp add: meta_field_is_number_def)
  have 2: "\<not> meta_field_is_number mf ob \<and> meta_field_truthy mf ob"
    if "\<exists>t. map_of mf ob = Some t \<and> t \<noteq> JStr ''number'' \<and> truthy t"
    using that by (auto simp: meta_field_is_number_def meta_field_truthy_def)
  have 3: "\<not> meta_field_is_number mf ob \<and> \<not> meta_field_truthy mf ob"
    if "(\<exists>t. map_of mf ob = Some t \<and> \<not> truthy t)
        \<or> map_of mf ob = None \<and> ob \<notin> set object_prototype_names"
    using that by (auto simp: meta_field_is_number_def meta_field_truthy_def)
  show ?thesis
  proof (intro conjI impI)
    assume "map_of mf ob = Some (JStr ''number'')"
    then show "\<exists>q p'. eval_query_params mf p = Inr (q, p')
               \<and> get_prop q ''orderby'' = JStr ''meta_value_num''
               \<and> get_prop q ''meta_key'' = JStr ob"
      using 1 q by (intro ok) simp
  next
    assume "\<exists>t. map_of mf ob = Some t \<and> t \<noteq> JStr ''number'' \<and> truthy t"
    then show "\<exists>q p'. eval_query_params mf p = Inr (q, p')
               \<and> get_prop q ''orderby'' = JStr ''meta_value''
               \<and> get_prop q ''meta_key'' = JStr ob"
      using 2 q by (intro ok) simp
  next
    assume "((\<exists>t. map_of mf ob = Some t \<and> \<not> truthy t)
             \<or> map_of mf ob = None \<and> ob \<notin> set object_prototype_names)
            \<and> ob \<notin> set valid_orderbys"
    then show "eval_query_params mf p = Inl (Thrown orderby_message)"
      using 3 q unfolding eval_query_params_def this_def[symmetric] by simp
  qed
qed

theorem query_params_orderby_witness:
  "(\<exists>q p'. eval_query_params (meta_fields example_config)
              [(''orderby'', JStr ''price''), (''pagenum'', JNum 2), (''meta_query'', JObj [])]
            = Inr (q, p')
          \<and> get_prop q ''orderby'' = JStr ''meta_value_num''
          \<and> get_prop q ''meta_key'' = JStr ''price'')
   \<and> (\<exists>q p'. eval_query_params (meta_fields example_config)
              [(''orderby'', JStr ''colour''), (''pagenum'', JNum 2), (''meta_query'', JObj [])]
            = Inr (q, p')
          \<and> get_prop q ''orderby'' = JStr ''meta_value''
          \<and> get_prop q ''meta_key'' = JStr ''colour'')
   \<and> eval_query_params (meta_fields example_config)
        [(''orderby'', JStr ''bogus''), (''pagenum'', JNum 2), (''meta_query'', JObj [])]
      = Inl (Thrown orderby_message)"
proof -
  let ?mf = "meta_fields example_config"
  let ?p = "\<lambda>ob. [(''orderby'', JStr ob), (''pagenum'', JNum 2), (''meta_query'', JObj [])]"
  have o: "get_prop (?p ob) ''orderby'' = JStr ob" for ob by (simp add: get_prop_def)
  have m: "get_prop (?p ob) ''meta_query'' = JObj []" for ob by (simp add: get_prop_def)
  have 1: "map_of ?mf ''price'' = Some (JStr ''number'')" by (simp add: example_config_def)
  have 2: "\<exists>t. map_of ?mf ''colour'' = Some t \<and> t \<noteq> JStr ''number'' \<and> truthy t"
    by (simp add: example_config_def)
  have 3: "((\<exists>t. map_of ?mf ''bogus'' = Some t \<and> \<not> truthy t)
             \<or> map_of ?mf ''bogus'' = None \<and> ''bogus'' \<notin> set object_prototype_names)
            \<and> ''bogus'' \<notin> set valid_orderbys"
    by (simp add: example_config_def object_prototype_names_def valid_orderbys_def)
  from query_params_orderby[where ob = "''price''" and mf = ?mf, OF o m] 1
       query_params_orderby[where ob = "''colour''" and mf = ?mf, OF o m] 2
       query_params_orderby[where ob = "''bogus''" and mf = ?mf, OF o m] 3
  show ?thesis by blast
qed

text \<open>
  The validation of \<^verbatim>\<open>orderby\<close> has a gap that the statement above leaves out: the read
  \<^verbatim>\<open>this.meta_fields[orderby]\<close> also finds what every object inherits, so a name such as
  \<^verbatim>\<open>constructor\<close>, which is neither a configured meta field nor a valid field, passes for a
  meta field instead of being refused with the validation message.
\<close>

lemma query_params_inherited_name:
  "eval_query_params []
     [(''orderby'', JStr ''constructor''), (''pagenum'', JNum 1), (''meta_query'', JObj [])]
   = Inr ([(''orderby'', JStr ''meta_value''), (''meta_query'', JObj []), (''page'', JNum 1),
           (''meta_key'', JStr ''constructor'')],
          [(''orderby'', JStr ''constructor''), (''pagenum'', JNum 1),
           (''meta_query'', JObj [])])"
  by code_simp

text \<open>
  C6 (\<^verbatim>\<open>query_params\<close> leaves \<^verbatim>\<open>this.params\<close> unchanged) does not hold of the code. The copy
  made by \<^verbatim>\<open>extend({}, this.params)\<close> shares the meta query with \<^verbatim>\<open>this.params\<close>, and
  \<^verbatim>\<open>query_params.meta_query.relation = 'AND'\<close> writes into the shared object. Here the
  evaluation on a meta query with one filter: the second component of the result is
  \<^verbatim>\<open>this.params\<close> afterwards, whose meta query has gained \<^verbatim>\<open>relation\<close>.
\<close>

theorem query_params_changes_params:
  "eval_query_params []
     [(''orderby'', JStr ''date''), (''pagenum'', JNum 1),
      (''meta_query'', JObj [(''colour'', JObj [(''field'', JStr ''colour''), (''value'', JStr ''red'')])])]
   = Inr ([(''orderby'', JStr ''date''),
           (''meta_query'', JObj [(''colour'', JObj [(''field'', JStr ''colour''), (''value'', JStr ''red'')]),
                                 (''relation'', JStr ''AND'')]),
           (''page'', JNum 1)],
          [(''orderby'', JStr ''date''), (''pagenum'', JNum 1),
           (''meta_query'', JObj [(''colour'', JObj [(''field'', JStr ''colour''), (''value'', JStr ''red'')]),
                                 (''relation'', JStr ''AND'')])])"
  by code_simp

subsection \<open>Fetching\<close>

text \<open>
  C5 (the outcomes of a fetch), as the claim states it: a success clears the error
  recorded before. Nothing in \<^verbatim>\<open>__fetchData\<close> (nor elsewhere in the component) resets
  \<^verbatim>\<open>this.error\<close>: after a success the earlier error is still there.
\<close>

theorem fetchData_keeps_error_counterexample:
  "error (fetchData js example_config (Response (JArr []) (Some ''12'') (Some ''2''))
            (example_state\<lparr>error := Some NetworkError\<rparr>)) = Some NetworkError"
  by code_simp

lemma constructURL_params:
  "constructURL cfg p = Inr (u, p') \<Longrightarrow> p' = with_relation p"
  by (auto simp: constructURL_def split: sum.splits dest: eval_query_params_params)

text \<open>
  C5, amended. When the request is built (\<^verbatim>\<open>constructURL\<close> returns) and answered with a JSON
  body, \<^verbatim>\<open>wp_data\<close> is the body, \<^verbatim>\<open>pagination_data\<close> holds \<^verbatim>\<open>parseInt\<close> of the two headers,
  \<^verbatim>\<open>loading\<close> is false and \<^verbatim>\<open>error\<close> is what it was. When the request is built and \<^verbatim>\<open>fetch\<close> or
  \<^verbatim>\<open>json()\<close> rejects with \<open>e\<close>, the error is \<open>e\<close>; when \<^verbatim>\<open>query_params\<close> throws \<open>e\<close> while the
  request is built, the error is \<^verbatim>\<open>new Error(e)\<close>; in both cases \<^verbatim>\<open>loading\<close> is false and
  \<^verbatim>\<open>wp_data\<close> and \<^verbatim>\<open>pagination_data\<close> are untouched.
\<close>

theorem fetchData_outcomes:
  "(constructURL cfg (params s) = Inr (u, p') \<longrightarrow>
      wp_data (fetchData E cfg (Response body total_header totalpages_header) s) = body
      \<and> pagination_data (fetchData E cfg (Response body total_header totalpages_header) s)
          = \<lparr>total_found = parseInt E total_header, total_pages = parseInt E totalpages_header\<rparr>
      \<and> loading (fetchData E cfg (Response body total_header totalpages_header) s) = False
      \<and> error (fetchData E cfg (Response body total_header totalpages_header) s) = error s)
   \<and> (constructURL cfg (params s) = Inr (u, p') \<and> r \<in> {FetchRejected e, JsonRejected e} \<longrightarrow>
      error (fetchData E cfg r s) = Some e
      \<and> loading (fetchData E cfg r s) = False
      \<and> wp_data (fetchData E cfg r s) = wp_data s
      \<and> pagination_data (fetchData E cfg r s) = pagination_data s)
   \<and> (eval_query_params (meta_fields cfg) (params s) = Inl e \<longrightarrow>
      error (fetchData E cfg r s) = Some (ErrorObj e)
      \<and> loading (fetchData E cfg r s) = False
      \<and> wp_data (fetchData E cfg r s) = wp_data s
      \<and> pagination_data (fetchData E cfg r s) = pagination_data s)"
  by (auto simp: fetchData_def fetchData_begin_def fetchData_end_def constructURL_def Let_def
      split: sum.splits prod.splits)

theorem fetchData_outcomes_witness:
  "wp_data (fetchData js example_config (Response (JArr [JNum 7]) (Some ''12'') (Some ''2'')) example_state)
     = JArr [JNum 7]
   \<and> pagination_data (fetchData js example_config (Response (JArr [JNum 7]) (Some ''12'') (Some ''2'')) example_state)
     = \<lparr>total_found = Some 12, total_pages = Some 2\<rparr>
   \<and> error (fetchData js example_config (FetchRejected NetworkError) example_state) = Some NetworkError
   \<and> wp_data (fetchData js example_config (FetchRejected NetworkError) example_state) = JObj []
   \<and> error (fetchData js example_config (JsonRejected SyntaxError)
        (example_state\<lparr>params := set_prop (params example_state) ''orderby'' (JStr ''bogus'')\<rparr>))
     = Some (ErrorObj (Thrown orderby_message))"
proof -
  have "\<not> isl (constructURL example_config (params example_state))"
    by code_simp
  then obtain u p' where c: "constructURL example_config (params example_state) = Inr (u, p')"
    by (cases "constructURL example_config (params example_state)") auto
  have b: "eval_query_params (meta_fields example_config)
             (params (example_state\<lparr>params := set_prop (params example_state) ''orderby'' (JStr ''bogus'')\<rparr>))
           = Inl (Thrown orderby_message)"
    by code_simp
  have p: "parseInt js (Some ''12'') = Some 12" "parseInt js (Some ''2'') = Some 2"
    by code_simp+
  have w: "wp_data example_state = JObj []" by code_simp
  from fetchData_outcomes[of example_config example_state u p' js "JArr [JNum 7]" "Some ''12''" "Some ''2''"
         "FetchRejected NetworkError" NetworkError]
       fetchData_outcomes[of example_config "example_state\<lparr>params := set_prop (params example_state) ''orderby'' (JStr ''bogus'')\<rparr>"
         u p' js JNull None None "JsonRejected SyntaxError" "Thrown orderby_message"]
       c b p w
  show ?thesis by simp
qed

subsection \<open>Runs\<close>

lemma run_append: "run E cfg pathname s (xs @ ys) = run E cfg pathname (run E cfg pathname s xs) ys"
  by (simp add: run_def)

lemma run_simps:
  "run E cfg pathname s [] = s"
  "run E cfg pathname s (a # acts) = run E cfg pathname (step E cfg pathname s a) acts"
  by (simp_all add: run_def)

lemma get_prop_assign_prop:
  "k' \<noteq> k \<Longrightarrow> get_prop (assign_prop obj k v) k' = get_prop obj k'"
  by (simp add: assign_prop_def get_prop_set_prop)

lemma get_prop_update_in_place:
  "k' \<noteq> k \<Longrightarrow> get_prop (update_in_place obj k v) k' = get_prop obj k'"
  by (simp add: update_in_place_def get_prop_set_prop)

lemma update_in_place_same: "update_in_place obj k (get_prop obj k) = obj"
proof (cases "map_of obj k")
  case None
  then show ?thesis by (simp add: update_in_place_def map_of_eq_None_iff)
next
  case (Some v)
  then show ?thesis by (simp add: update_in_place_def get_prop_def set_prop_same)
qed

lemma addTerms_loop_not_array:
  "addTerms_loop c ts = Inr c' \<Longrightarrow> \<forall>ys. c \<noteq> JArr ys \<Longrightarrow> c' = c"
  by (induction ts) (auto split: jsval.splits if_splits)

lemma removeTerms_loop_not_array:
  "removeTerms_loop c ts = Inr c' \<Longrightarrow> \<forall>ys. c \<noteq> JArr ys \<Longrightarrow> c' = c"
  by (induction ts) (auto split: jsval.splits if_splits)

lemma pagenum_okD: "pagenum_ok p \<Longrightarrow> \<exists>n\<ge>1. get_prop p ''pagenum'' = JNum n"
  by (auto simp: pagenum_ok_def split: jsval.splits)

lemma pagenum_ok_cong: "get_prop p' ''pagenum'' = get_prop p ''pagenum'' \<Longrightarrow> pagenum_ok p' = pagenum_ok p"
  by (simp add: pagenum_ok_def)

lemma addTerms_pagenum:
  assumes "addTerms taxonomy terms s = Inr s'" and "pagenum_ok (params s)"
  shows "get_prop (params s') ''pagenum'' = get_prop (params s) ''pagenum''"
proof (cases "taxonomy = ''pagenum''")
  case True
  from assms(2) obtain n where n: "get_prop (params s) ''pagenum'' = JNum n"
    using pagenum_okD by blast
  from assms(1) obtain ts c where
    c: "addTerms_loop (get_prop (params s) taxonomy) ts = Inr c"
       "s' = s\<lparr>params := update_in_place (params s) taxonomy c\<rparr>"
    by (auto simp: addTerms_def split: sum.splits)
  have "c = get_prop (params s) taxonomy"
    using addTerms_loop_not_array[OF c(1)] True n by simp
  then show ?thesis using c(2) by (simp add: update_in_place_same)
next
  case False
  with assms(1) show ?thesis
    by (auto simp: addTerms_def get_prop_update_in_place split: sum.splits)
qed

lemma removeTerms_pagenum:
  assumes "removeTerms taxonomy terms s = Inr s'" and "pagenum_ok (params s)"
  shows "get_prop (params s') ''pagenum'' = get_prop (params s) ''pagenum''"
proof (cases "taxonomy = ''pagenum''")
  case True
  from assms(2) obtain n where n: "get_prop (params s) ''pagenum'' = JNum n"
    using pagenum_okD by blast
  from assms(1) obtain ts c where
    c: "removeTerms_loop (get_prop (params s) taxonomy) ts = Inr c"
       "s' = s\<lparr>params := update_in_place (params s) taxonomy c\<rparr>"
    by (auto simp: removeTerms_def split: sum.splits)
  have "c = get_prop (params s) taxonomy"
    using removeTerms_loop_not_array[OF c(1)] True n by simp
  then show ?thesis using c(2) by (simp add: update_in_place_same)
next
  case False
  with assms(1) show ?thesis
    by (auto simp: removeTerms_def get_prop_update_in_place split: sum.splits)
qed

lemma order_methods_pagenum:
  "setOrder x s = Inr s' \<Longrightarrow> get_prop (params s') ''pagenum'' = get_prop (params s) ''pagenum''"
  "toggleOrder s = Inr s' \<Longrightarrow> get_prop (params s') ''pagenum'' = get_prop (params s) ''pagenum''"
  "selectOrderBy y z s = Inr s' \<Longrightarrow> get_prop (params s') ''pagenum'' = get_prop (params s) ''pagenum''"
  by (auto simp: setOrder_def toggleOrder_def selectOrderBy_def setOrderBy_def Let_def
      get_prop_set_prop split: if_splits sum.splits)

lemma meta_filter_pagenum:
  "setMetaFilter E f v s = Inr s' \<Longrightarrow> get_prop (params s') ''pagenum'' = get_prop (params s) ''pagenum''"
  "removeMetaFilter E f s = Inr s' \<Longrightarrow> get_prop (params s') ''pagenum'' = get_prop (params s) ''pagenum''"
  by (auto simp: setMetaFilter_def removeMetaFilter_def get_prop_update_in_place split: sum.splits)

lemma step_keeps_page:
  assumes "pagenum_ok (params s)"
    and "pagenum_ok (merge E [] [initialParams cfg, initial_taxonomies cfg])"
    and "keeps_page a"
  shows "pagenum_ok (params (step E cfg pathname s a))"
proof (cases a)
  case (SelectPage page)
  have "get_prop [(''pagenum'', page)] ''pagenum'' = page" by (simp add: get_prop_def)
  with SelectPage show ?thesis using assms(3)
    by (simp add: selectPage_def pagenum_ok_def get_prop_set_prop)
next
  case (SetSearch x)
  then show ?thesis using assms(1) by (simp add: setSearch_def pagenum_ok_def get_prop_set_prop)
next
  case (ResetTerms t)
  then show ?thesis using assms(1,3)
    by (simp add: resetTerms_def pagenum_ok_def get_prop_assign_prop)
next
  case (AddTerms t ts)
  then show ?thesis using assms(1) addTerms_pagenum[of t ts s]
    by (auto simp: or_unchanged_def pagenum_ok_def split: sum.splits)
next
  case (RemoveTerms t ts)
  then show ?thesis using assms(1) removeTerms_pagenum[of t ts s]
    by (auto simp: or_unchanged_def pagenum_ok_def split: sum.splits)
next
  case (SetTerms t ts)
  then show ?thesis using assms(1,3)
    by (auto simp: or_unchanged_def setTerms_def pagenum_ok_def get_prop_assign_prop
        split: sum.splits)
next
  case (SetOrder x)
  then show ?thesis using assms(1) order_methods_pagenum(1)[of x s]
    by (auto simp: or_unchanged_def pagenum_ok_def split: sum.splits)
next
  case (SetOrderBy x)
  then show ?thesis using assms(1) by (simp add: setOrderBy_def pagenum_ok_def get_prop_set_prop)
next
  case (SelectOrderBy x y)
  then show ?thesis using assms(1) order_methods_pagenum(3)[of x y s]
    by (auto simp: or_unchanged_def pagenum_ok_def split: sum.splits)
next
  case ToggleOrder
  then show ?thesis using assms(1) order_methods_pagenum(2)[of s]
    by (auto simp: or_unchanged_def pagenum_ok_def split: sum.splits)
next
  case (SetMetaFilter f v)
  then show ?thesis using assms(1) meta_filter_pagenum(1)[of E f v s]
    by (auto simp: or_unchanged_def pagenum_ok_def split: sum.splits)
next
  case (RemoveMetaFilter f)
  then show ?thesis using assms(1) meta_filter_pagenum(2)[of E f s]
    by (auto simp: or_unchanged_def pagenum_ok_def split: sum.splits)
next
  case ClearMetaFilters
  then show ?thesis using assms(1) by (simp add: or_unchanged_def clearMetaFilters_def)
next
  case Reset
  then show ?thesis using assms(2) by (simp add: reset_def)
next
  case (Navigate st nav)
  then show ?thesis using assms
    by (cases st; cases nav) (simp_all add: history_listener_def reset_def)
next
  case React
  then show ?thesis using assms(1)
    by (simp add: pagenum_ok_def handler_pagenum)
next
  case (FetchEnd r)
  then show ?thesis using assms(1) by (cases r) (simp_all add: fetchData_end_def)
qed

lemma run_keeps_page:
  assumes "pagenum_ok (merge E [] [initialParams cfg, initial_taxonomies cfg])"
  shows "pagenum_ok (params s) \<Longrightarrow> \<forall>a \<in> set acts. keeps_page a
         \<Longrightarrow> pagenum_ok (params (run E cfg pathname s acts))"
proof (induction acts arbitrary: s)
  case Nil
  then show ?case by (simp add: run_simps)
next
  case (Cons a acts)
  then show ?case using step_keeps_page[OF _ assms] by (simp add: run_simps)
qed

lemma quiet_flags:
  assumes "quiet a"
  shows "suppress_history_state (step E cfg pathname s a) = suppress_history_state s"
    and "history (step E cfg pathname s a) = history s"
proof -
  have "suppress_history_state (step E cfg pathname s a) = suppress_history_state s
        \<and> history (step E cfg pathname s a) = history s"
  proof (cases a)
    case (Navigate st nav)
    then show ?thesis using assms by (cases nav) (simp_all add: history_listener_def)
  next
    case (FetchEnd r)
    then show ?thesis by (cases r) (simp_all add: fetchData_end_def)
  qed (use assms in \<open>auto simp: or_unchanged_def selectPage_def setSearch_def resetTerms_def
        addTerms_def removeTerms_def setTerms_def setOrder_def setOrderBy_def toggleOrder_def
        selectOrderBy_def setMetaFilter_def removeMetaFilter_def clearMetaFilters_def
        reset_def Let_def split: sum.splits if_splits\<close>)
  then show "suppress_history_state (step E cfg pathname s a) = suppress_history_state s"
    and "history (step E cfg pathname s a) = history s" by simp_all
qed

lemma quiet_page_flag:
  assumes "quiet a" and "\<forall>page. a \<noteq> SelectPage page"
  shows "page_updated (step E cfg pathname s a) = page_updated s"
proof (cases a)
  case (Navigate st nav)
  then show ?thesis using assms by (cases nav) (simp_all add: history_listener_def)
next
  case (FetchEnd r)
  then show ?thesis by (cases r) (simp_all add: fetchData_end_def)
qed (use assms in \<open>auto simp: or_unchanged_def setSearch_def resetTerms_def
      addTerms_def removeTerms_def setTerms_def setOrder_def setOrderBy_def toggleOrder_def
      selectOrderBy_def setMetaFilter_def removeMetaFilter_def clearMetaFilters_def
      reset_def Let_def split: sum.splits if_splits\<close>)

lemma run_quiet_flags:
  "\<forall>a \<in> set acts. quiet a \<Longrightarrow>
     suppress_history_state (run E cfg pathname s acts) = suppress_history_state s
     \<and> history (run E cfg pathname s acts) = history s"
  by (induction acts arbitrary: s) (simp_all add: run_simps quiet_flags)

subsection \<open>The page-reset policy\<close>

text \<open>
  C3 (\<^verbatim>\<open>pagenum\<close> stays at least 1), as the claim states it. \<^verbatim>\<open>selectPage\<close> stores its argument
  as it is, and the reaction that follows a page selection leaves it alone: after
  \<^verbatim>\<open>selectPage(0)\<close> the page number is 0, and after \<^verbatim>\<open>selectPage('&hellip;')\<close>, which a click on
  the ellipsis of the example template sends, it is that string.
\<close>

theorem selectPage_zero_counterexample:
  "get_prop
     (params (run js example_config ''/resources'' example_state
                [React, SelectPage (JNum 0), React])) ''pagenum'' = JNum 0
   \<and> get_prop
     (params (run js example_config ''/resources'' example_state
                [React, SelectPage hellip, React])) ''pagenum'' = hellip"
  by code_simp

text \<open>
  C3, amended. A reaction forces \<^verbatim>\<open>pagenum\<close> to 1 exactly when the flag \<^verbatim>\<open>__page_updated\<close> is
  clear, and clears the flag. \<^verbatim>\<open>selectPage\<close> sets the flag: the reaction after
  \<^verbatim>\<open>selectPage(page)\<close> leaves \<^verbatim>\<open>pagenum\<close> equal to \<open>page\<close>. No other method touches the flag: after
  a reaction, any of them (a change of search or of a taxonomy selection among them)
  followed by a reaction leaves \<^verbatim>\<open>pagenum\<close> equal to 1. And \<^verbatim>\<open>pagenum\<close> stays a number that is
  at least 1 along every run from a state where it is one, provided the pages selected
  and the snapshots restored have such a page number, the initial values have one, and
  no taxonomy is assigned under the name \<^verbatim>\<open>pagenum\<close>.
\<close>

theorem page_reset_policy:
  "get_prop (params (handler E cfg pathname s)) ''pagenum''
     = (if page_updated s then get_prop (params s) ''pagenum'' else JNum 1)
   \<and> page_updated (handler E cfg pathname s) = False
   \<and> get_prop (params (run E cfg pathname s [SelectPage page, React])) ''pagenum'' = page
   \<and> (quiet a \<and> (\<forall>page'. a \<noteq> SelectPage page') \<longrightarrow>
        get_prop (params (run E cfg pathname s [React, a, React])) ''pagenum'' = JNum 1)
   \<and> (pagenum_ok (params s)
        \<and> pagenum_ok (merge E [] [initialParams cfg, initial_taxonomies cfg])
        \<and> (\<forall>b \<in> set acts. keeps_page b) \<longrightarrow>
        pagenum_ok (params (run E cfg pathname s acts)))"
proof (intro conjI impI)
  show "get_prop (params (handler E cfg pathname s)) ''pagenum''
     = (if page_updated s then get_prop (params s) ''pagenum'' else JNum 1)"
    by (rule handler_pagenum)
  show "page_updated (handler E cfg pathname s) = False"
    by (rule handler_flags)
  show "get_prop (params (run E cfg pathname s [SelectPage page, React])) ''pagenum'' = page"
    by (simp add: run_simps handler_pagenum selectPage_def get_prop_set_prop)
next
  assume a: "quiet a \<and> (\<forall>page'. a \<noteq> SelectPage page')"
  have "page_updated (step E cfg pathname (handler E cfg pathname s) a) = False"
    using quiet_page_flag[of a E cfg pathname "handler E cfg pathname s"] a
    by (simp add: handler_flags)
  then show "get_prop (params (run E cfg pathname s [React, a, React])) ''pagenum'' = JNum 1"
    by (simp add: run_simps handler_pagenum)
next
  assume "pagenum_ok (params s)
        \<and> pagenum_ok (merge E [] [initialParams cfg, initial_taxonomies cfg])
        \<and> (\<forall>b \<in> set acts. keeps_page b)"
  then show "pagenum_ok (params (run E cfg pathname s acts))"
    using run_keeps_page by blast
qed

theorem page_reset_policy_witness:
  "get_prop (params (run js example_config ''/resources'' example_state
                       [React, SetSearch (JStr ''tea''), React])) ''pagenum'' = JNum 1
   \<and> pagenum_ok (params (run js example_config ''/resources'' example_state
                       [React, SelectPage (JNum 3), React, SetTerms ''categories'' (JNum 5),
                        React, Navigate None POP, React]))"
proof -
  have q: "quiet (SetSearch (JStr ''tea'')) \<and> (\<forall>page'. SetSearch (JStr ''tea'') \<noteq> SelectPage page')"
    by simp
  have p: "pagenum_ok (params example_state)
        \<and> pagenum_ok (merge js [] [initialParams example_config, initial_taxonomies example_config])
        \<and> (\<forall>b \<in> set [React, SelectPage (JNum 3), React, SetTerms ''categories'' (JNum 5),
                        React, Navigate None POP, React]. keeps_page b)"
    by code_simp
  from page_reset_policy[of js example_config "''/resources''" example_state _ "SetSearch (JStr ''tea'')"
         "[React, SelectPage (JNum 3), React, SetTerms ''categories'' (JNum 5),
           React, Navigate None POP, React]"] q p
  show ?thesis by blast
qed

subsection \<open>History\<close>

text \<open>
  C4 (one reaction is suppressed after a mount or a pop). \<^verbatim>\<open>created\<close> and the listener, on
  \<^verbatim>\<open>POP\<close>, set the flag \<^verbatim>\<open>__suppress_history_state\<close>. A reaction pushes nothing when the flag
  is set and otherwise pushes the entry made of the path, \<^verbatim>\<open>?\<close> and the serialised
  parameters; in both cases it clears the flag. Nothing else touches the flag or the
  history. So from a state where the flag is set, whatever methods are called, the first
  reaction pushes nothing and the second one pushes its entry.
\<close>

theorem history_suppression:
  "(created E cfg search = Inr sc \<longrightarrow> suppress_history_state sc \<and> history sc = [])
   \<and> suppress_history_state (history_listener E cfg location_state POP s)
   \<and> history (handler E cfg pathname s) =
       (if suppress_history_state s then history s
        else history s @ [history_entry E pathname (params (handler E cfg pathname s))])
   \<and> suppress_history_state (handler E cfg pathname s) = False
   \<and> (quiet a \<longrightarrow>
        suppress_history_state (step E cfg pathname s a) = suppress_history_state s
        \<and> history (step E cfg pathname s a) = history s)
   \<and> (suppress_history_state s \<and> (\<forall>b \<in> set acts \<union> set acts'. quiet b) \<longrightarrow>
        history (run E cfg pathname s (acts @ [React])) = history s
        \<and> history (run E cfg pathname s (acts @ [React] @ acts' @ [React]))
            = history s @ [history_entry E pathname
                 (params (run E cfg pathname s (acts @ [React] @ acts' @ [React])))])"
proof (intro conjI impI)
  assume "created E cfg search = Inr sc"
  then show "suppress_history_state sc" and "history sc = []"
    by (auto simp: created_def reset_def data_def Let_def split: if_splits sum.splits)
next
  show "suppress_history_state (history_listener E cfg location_state POP s)"
    by (cases location_state) (simp_all add: history_listener_def reset_def)
  show "history (handler E cfg pathname s) =
       (if suppress_history_state s then history s
        else history s @ [history_entry E pathname (params (handler E cfg pathname s))])"
    by (simp add: handler_history history_entry_def)
  show "suppress_history_state (handler E cfg pathname s) = False"
    by (rule handler_flags)
next
  assume "quiet a"
  then show "suppress_history_state (step E cfg pathname s a) = suppress_history_state s"
    and "history (step E cfg pathname s a) = history s"
    by (rule quiet_flags)+
next
  assume h: "suppress_history_state s \<and> (\<forall>b \<in> set acts \<union> set acts'. quiet b)"
  let ?s1 = "run E cfg pathname s acts"
  let ?s2 = "handler E cfg pathname ?s1"
  let ?s3 = "run E cfg pathname ?s2 acts'"
  have 1: "suppress_history_state ?s1" "history ?s1 = history s"
    using run_quiet_flags[of acts E cfg pathname s] h by auto
  have 2: "history ?s2 = history s" "suppress_history_state ?s2 = False"
    using 1 by (simp_all add: handler_history handler_flags)
  have 3: "history ?s3 = history s" "suppress_history_state ?s3 = False"
    using run_quiet_flags[of acts' E cfg pathname ?s2] h 2 by auto
  show "history (run E cfg pathname s (acts @ [React])) = history s"
    using 2 by (simp add: run_append run_simps)
  show "history (run E cfg pathname s (acts @ [React] @ acts' @ [React]))
            = history s @ [history_entry E pathname
                 (params (run E cfg pathname s (acts @ [React] @ acts' @ [React])))]"
    using 3 by (simp add: run_append run_simps handler_history history_entry_def)
qed

theorem history_suppression_witness:
  "history (run js example_config ''/resources'' example_state [SetSearch (JStr ''tea''), React]) = []
   \<and> history (run js example_config ''/resources'' example_state
        ([SetSearch (JStr ''tea'')] @ [React] @ [SelectPage (JNum 2)] @ [React]))
     = [history_entry js ''/resources''
          (params (run js example_config ''/resources'' example_state
             ([SetSearch (JStr ''tea'')] @ [React] @ [SelectPage (JNum 2)] @ [React])))]
   \<and> suppress_history_state example_state"
proof -
  have c: "created js example_config [] = Inr example_state"
    by (simp add: created_def example_state_def)
  have h: "history example_state = []" by code_simp
  have q: "\<forall>b \<in> set [SetSearch (JStr ''tea'')] \<union> set [SelectPage (JNum 2)]. quiet b" by simp
  from history_suppression[where E = js and cfg = example_config and search = "[]"
         and sc = example_state and s = example_state and pathname = "''/resources''"
         and acts = "[SetSearch (JStr ''tea'')]" and acts' = "[SelectPage (JNum 2)]"] c h q
  show ?thesis by simp
qed

text \<open>
  C9 (back and forward navigation: with a snapshot the parameters are the snapshot and
  no page reset follows; with none they are the configured initial values) does not hold
  of the code in its second half. On a \<^verbatim>\<open>POP\<close> that carries no snapshot the listener calls
  \<^verbatim>\<open>reset()\<close> and leaves \<^verbatim>\<open>__page_updated\<close> alone, where the branch for a snapshot (line 623)
  and \<^verbatim>\<open>created\<close> (line 670) set it: the reaction to the change then forces \<^verbatim>\<open>pagenum\<close> to 1,
  and the parameters are the initial values no more when the initial page is not 1.
  Here a component configured with 2 as its initial page: after the mount the page is 2;
  after a search and a navigation back to the first entry, which carries no state, the
  parameters are the initial values; after the reaction to that the page is 1.
\<close>

theorem pop_without_snapshot_loses_initial_page:
  "created js example_config_page2 [] = Inr example_state_page2
   \<and> params (run js example_config_page2 ''/resources'' example_state_page2 [React])
       = [(''per_page'', JNum 10), (''search'', JStr []), (''order'', JStr ''desc''),
          (''orderby'', JStr ''date''), (''pagenum'', JNum 2), (''meta_query'', JObj []),
          (''ver'', JNum 1), (''categories'', JArr [JNum 1, JNum 2])]
   \<and> params (run js example_config_page2 ''/resources'' example_state_page2
                [React, SetSearch (JStr ''tea''), React, Navigate None POP])
       = [(''per_page'', JNum 10), (''search'', JStr []), (''order'', JStr ''desc''),
          (''orderby'', JStr ''date''), (''pagenum'', JNum 2), (''meta_query'', JObj []),
          (''ver'', JNum 1), (''categories'', JArr [JNum 1, JNum 2])]
   \<and> params (run js example_config_page2 ''/resources'' example_state_page2
                [React, SetSearch (JStr ''tea''), React, Navigate None POP, React])
       = [(''per_page'', JNum 10), (''search'', JStr []), (''order'', JStr ''desc''),
          (''orderby'', JStr ''date''), (''pagenum'', JNum 1), (''meta_query'', JObj []),
          (''ver'', JNum 1), (''categories'', JArr [JNum 1, JNum 2])]"
  by code_simp

text \<open>The two branches of the listener in general. With a snapshot the parameters are
  the snapshot, the flag is set and the reaction that follows leaves the snapshot's
  \<^verbatim>\<open>pagenum\<close>. With none the parameters are what \<^verbatim>\<open>reset\<close> computes, the flag is as it was,
  and when it is clear, as it is after any reaction, the reaction that follows sets
  \<^verbatim>\<open>pagenum\<close> to 1.\<close>

lemma pop_with_snapshot:
  "params (history_listener E cfg (Some snapshot) POP s) = snapshot
   \<and> page_updated (history_listener E cfg (Some snapshot) POP s)
   \<and> get_prop (params (handler E cfg pathname (history_listener E cfg (Some snapshot) POP s)))
        ''pagenum'' = get_prop snapshot ''pagenum''"
  by (simp add: history_listener_def handler_pagenum)

lemma pop_without_snapshot:
  "params (history_listener E cfg None POP s)
     = merge E [] [initialParams cfg, initial_taxonomies cfg]
   \<and> page_updated (history_listener E cfg None POP s) = page_updated s
   \<and> get_prop (params (handler E cfg pathname (history_listener E cfg None POP s))) ''pagenum''
       = (if page_updated s
          then get_prop (merge E [] [initialParams cfg, initial_taxonomies cfg]) ''pagenum''
          else JNum 1)"
  by (simp add: history_listener_def handler_pagenum reset_def)

end
